theory Spec2Isabelle
  imports Complex_Main "HOL-Library.Product_Lexorder"
begin

section \<open>Values shared by the modules\<close>

text \<open>
  A JavaScript \<^verbatim>\<open>Date\<close> is modelled by what its getters return: \<open>getTime\<close> is
  the epoch time in milliseconds (it also fixes \<^verbatim>\<open>toISOString()\<close>), the other fields
  are the local wall-clock getters that \<^verbatim>\<open>addReading\<close> reads. Every \<^verbatim>\<open>new Date()\<close>
  of the source is a value supplied by the environment.
\<close>

record date =
  getTime :: int
  getFullYear :: int
  getMonth :: nat
  getDate :: nat
  getHours :: nat
  getMinutes :: nat
  getSeconds :: nat

type_synonym crossing_id = string

section \<open>traffic.js: the external source adapter\<close>

record route =
  origin :: string
  destination :: string
  waypoint :: string
  route_name :: string

definition ROUTES :: "(crossing_id \<times> route) list" where
  "ROUTES =
    [(''gwb-into'', \<lparr>origin = ''40.8509,-73.9630'', destination = ''40.8500,-73.9400'',
        waypoint = ''40.8517,-73.9527'', route_name = ''George Washington Bridge''\<rparr>),
     (''gwb-out'', \<lparr>origin = ''40.8500,-73.9400'', destination = ''40.8509,-73.9630'',
        waypoint = ''40.8517,-73.9527'', route_name = ''George Washington Bridge''\<rparr>),
     (''lincoln-into'', \<lparr>origin = ''40.7600,-74.0200'', destination = ''40.7580,-73.9900'',
        waypoint = ''40.7590,-74.0020'', route_name = ''Lincoln Tunnel''\<rparr>),
     (''lincoln-out'', \<lparr>origin = ''40.7580,-73.9900'', destination = ''40.7600,-74.0200'',
        waypoint = ''40.7590,-74.0020'', route_name = ''Lincoln Tunnel''\<rparr>),
     (''holland-into'', \<lparr>origin = ''40.7280,-74.0500'', destination = ''40.7260,-74.0070'',
        waypoint = ''40.7267,-74.0110'', route_name = ''Holland Tunnel''\<rparr>),
     (''holland-out'', \<lparr>origin = ''40.7260,-74.0070'', destination = ''40.7280,-74.0500'',
        waypoint = ''40.7267,-74.0110'', route_name = ''Holland Tunnel''\<rparr>)]"

text \<open>\<^verbatim>\<open>Object.keys(ROUTES)\<close>: the keys in insertion order.\<close>

definition Object_keys :: "('k \<times> 'v) list \<Rightarrow> 'k list" where
  "Object_keys obj = map fst obj"

text \<open>
  The JSON body of a Directions API answer, as far as \<^verbatim>\<open>fetchTravelTime\<close> reads it.
  A field that may be absent is an option. \<open>duration_in_traffic\<close>, \<open>duration\<close> and
  \<open>distance\<close> are objects; of such an object the code reads the field \<^verbatim>\<open>value\<close>
  only, which is an integer (seconds or metres) or is missing: \<open>Some None\<close> is an object
  without \<^verbatim>\<open>value\<close>, as in \<^verbatim>\<open>{text: '12 mins'}\<close>, and \<open>None\<close> is no object.
\<close>

type_synonym value_object = "int option"

record leg =
  duration_in_traffic :: "value_object option"
  duration :: "value_object option"
  distance :: "value_object option"

record directions =
  status :: string
  routes :: "leg list option list option"

text \<open>
  What \<^verbatim>\<open>await fetch(url)\<close> followed by \<^verbatim>\<open>await response.json()\<close> gives for the
  route of one crossing: \<open>Inl msg\<close> when either of them rejects with an error whose
  message is \<open>msg\<close> (no connection, a body that is not JSON), \<open>Inr d\<close> for the
  parsed body.
\<close>

type_synonym api = "crossing_id \<Rightarrow> string + directions"

text \<open>The \<^verbatim>\<open>new Date()\<close> taken when the fetch of a crossing finishes.\<close>

type_synonym clock = "crossing_id \<Rightarrow> date"

text \<open>
  The numbers the adapter computes with: sums of integers (exact while they stay below
  \<open>2^53\<close>) and \<^verbatim>\<open>NaN\<close>, which an addition with \<^verbatim>\<open>undefined\<close> gives and every
  later operation keeps.
\<close>

datatype numeric = Whole int | Not_a_Number

text \<open>
  One element of the result list of \<^verbatim>\<open>fetchAllTravelTimes\<close>. \<open>waitTime = None\<close> is
  \<^verbatim>\<open>waitTime: null\<close>, \<open>waitTime = Some Not_a_Number\<close> is \<^verbatim>\<open>waitTime: NaN\<close>, and
  \<open>error = None\<close> is an absent \<^verbatim>\<open>error\<close> field. The two
  informational strings \<^verbatim>\<open>durationText\<close> and \<^verbatim>\<open>distance\<close> of a successful entry
  are read by nothing on the server and are left out.
\<close>

record travel =
  crossingId :: crossing_id
  waitTime :: "numeric option"
  error :: "string option"
  timestamp :: date

definition TypeError_value :: string where
  "TypeError_value = ''Cannot read properties of undefined (reading 'value')''"

text \<open>\<^verbatim>\<open>total += object.value\<close>: a missing \<^verbatim>\<open>value\<close> is \<^verbatim>\<open>undefined\<close>.\<close>

definition plus_value :: "numeric \<Rightarrow> value_object \<Rightarrow> numeric" where
  "plus_value acc v =
     (case acc of
        Not_a_Number \<Rightarrow> Not_a_Number
      | Whole a \<Rightarrow> (case v of None \<Rightarrow> Not_a_Number | Some b \<Rightarrow> Whole (a + b)))"

text \<open>
  The loop over the legs: each leg adds \<^verbatim>\<open>duration_in_traffic.value\<close> when that object
  is there and \<^verbatim>\<open>duration.value\<close> otherwise, then \<^verbatim>\<open>distance.value\<close>; reading
  \<^verbatim>\<open>.value\<close> of an absent object throws a TypeError.
\<close>

fun sum_legs :: "leg list \<Rightarrow> numeric \<Rightarrow> numeric \<Rightarrow> string + (numeric \<times> numeric)" where
  "sum_legs [] totalDurationSeconds totalDistanceMeters =
     Inr (totalDurationSeconds, totalDistanceMeters)"
| "sum_legs (l # ls) totalDurationSeconds totalDistanceMeters =
     (case (case duration_in_traffic l of
              Some v \<Rightarrow> Some v
            | None \<Rightarrow> duration l) of
        None \<Rightarrow> Inl TypeError_value
      | Some secs \<Rightarrow>
          (case distance l of
             None \<Rightarrow> Inl TypeError_value
           | Some m \<Rightarrow>
               sum_legs ls (plus_value totalDurationSeconds secs)
                 (plus_value totalDistanceMeters m)))"

text \<open>
  \<^verbatim>\<open>Math.round(x / 60)\<close>: for an integer \<open>x\<close>, \<^verbatim>\<open>Math.round\<close> rounds a half towards
  plus infinity; \<^verbatim>\<open>NaN / 60\<close> and \<^verbatim>\<open>Math.round(NaN)\<close> are \<^verbatim>\<open>NaN\<close>.
\<close>

definition Math_round_div60 :: "numeric \<Rightarrow> numeric" where
  "Math_round_div60 x =
     (case x of Whole n \<Rightarrow> Whole ((n + 30) div 60) | Not_a_Number \<Rightarrow> Not_a_Number)"

definition fetchTravelTime :: "api \<Rightarrow> clock \<Rightarrow> crossing_id \<Rightarrow> string + travel" where
  "fetchTravelTime fetch now crossingId' =
     (case map_of ROUTES crossingId' of
        None \<Rightarrow> Inl (''Unknown crossing: '' @ crossingId')
      | Some r \<Rightarrow>
          (case fetch crossingId' of
             Inl msg \<Rightarrow> Inl msg
           | Inr data \<Rightarrow>
               if status data \<noteq> ''OK'' then Inl (''API error: '' @ status data)
               else
                 (case routes data of
                    None \<Rightarrow> Inl ''No routes found''
                  | Some [] \<Rightarrow> Inl ''No routes found''
                  | Some (route_data # _) \<Rightarrow>
                      (case route_data of
                         None \<Rightarrow> Inl ''No route legs found''
                       | Some [] \<Rightarrow> Inl ''No route legs found''
                       | Some legs \<Rightarrow>
                           (case sum_legs legs (Whole 0) (Whole 0) of
                              Inl msg \<Rightarrow> Inl msg
                            | Inr (totalDurationSeconds, totalDistanceMeters) \<Rightarrow>
                                Inr \<lparr>crossingId = crossingId',
                                     waitTime = Some (Math_round_div60 totalDurationSeconds),
                                     error = None,
                                     timestamp = now crossingId'\<rparr>)))))"

text \<open>The entry that the \<^verbatim>\<open>catch\<close> block of \<^verbatim>\<open>fetchAllTravelTimes\<close> pushes.\<close>

definition failed_entry :: "clock \<Rightarrow> crossing_id \<Rightarrow> string \<Rightarrow> travel" where
  "failed_entry now crossingId' msg =
     \<lparr>crossingId = crossingId', waitTime = None, error = Some msg, timestamp = now crossingId'\<rparr>"

text \<open>
  The \<^verbatim>\<open>for\<close> loop of \<^verbatim>\<open>fetchAllTravelTimes\<close> with its \<^verbatim>\<open>try\<close>/\<^verbatim>\<open>catch\<close>; the
  function is \<^verbatim>\<open>async\<close>, so its value is a promise that resolves (\<open>Inr\<close>) or rejects
  (\<open>Inl\<close>).
\<close>

fun fetch_loop :: "api \<Rightarrow> clock \<Rightarrow> crossing_id list \<Rightarrow> travel list \<Rightarrow> string + travel list" where
  "fetch_loop fetch now [] results = Inr results"
| "fetch_loop fetch now (crossingId' # crossingIds) results =
     (case fetchTravelTime fetch now crossingId' of
        Inr result \<Rightarrow> fetch_loop fetch now crossingIds (results @ [result])
      | Inl msg \<Rightarrow>
          fetch_loop fetch now crossingIds (results @ [failed_entry now crossingId' msg]))"

definition fetchAllTravelTimes :: "api \<Rightarrow> clock \<Rightarrow> string + travel list" where
  "fetchAllTravelTimes fetch now = fetch_loop fetch now (Object_keys ROUTES) []"

text \<open>\<^verbatim>\<open>isConfigured\<close>: \<^verbatim>\<open>!!API_KEY\<close>, for the environment variable read at start.\<close>

definition isConfigured :: "string option \<Rightarrow> bool" where
  "isConfigured API_KEY = (case API_KEY of None \<Rightarrow> False | Some k \<Rightarrow> k \<noteq> [])"

section \<open>db.js: the reading store\<close>

text \<open>
  The column \<^verbatim>\<open>recorded_at\<close> holds the text \<^verbatim>\<open>YYYY-MM-DD HH:MM:SS\<close> that
  \<^verbatim>\<open>addReading\<close> builds from the local getters of the date. It is modelled by the six
  numbers the text is made of (for the four-digit years of a running server the text and
  the numbers determine each other).
\<close>

record local_timestamp =
  ts_year :: int
  ts_month :: nat
  ts_day :: nat
  ts_hour :: nat
  ts_minute :: nat
  ts_second :: nat

text \<open>A row of the table \<^verbatim>\<open>readings\<close>; the table is the list of its rows in insertion order.\<close>

record reading =
  crossing_id :: crossing_id
  wait_time :: int
  recorded_at :: local_timestamp

text \<open>
  \<^verbatim>\<open>insertReading.run\<close> of better-sqlite3: \<open>None\<close> when the \<^verbatim>\<open>INSERT\<close> succeeds,
  \<open>Some msg\<close> when it throws (a constraint that fails, a locked or full database).
\<close>

type_synonym sqlite = "reading list \<Rightarrow> reading \<Rightarrow> string option"

text \<open>
  \<^verbatim>\<open>addReading\<close>. The column \<^verbatim>\<open>wait_time\<close> is \<^verbatim>\<open>INTEGER NOT NULL\<close> and SQLite
  binds \<^verbatim>\<open>NaN\<close> as \<^verbatim>\<open>NULL\<close>, so the \<^verbatim>\<open>INSERT\<close> of a \<^verbatim>\<open>NaN\<close> throws.
\<close>

definition NOT_NULL_failed :: string where
  "NOT_NULL_failed = ''NOT NULL constraint failed: readings.wait_time''"

definition addReading ::
  "sqlite \<Rightarrow> crossing_id \<Rightarrow> numeric \<Rightarrow> date \<Rightarrow> reading list \<Rightarrow> string + reading list" where
  "addReading run crossingId' waitTime' timestamp' db =
     (let localTimestamp =
            \<lparr>ts_year = getFullYear timestamp', ts_month = getMonth timestamp' + 1,
             ts_day = getDate timestamp', ts_hour = getHours timestamp',
             ts_minute = getMinutes timestamp', ts_second = getSeconds timestamp'\<rparr>
      in case waitTime' of
           Not_a_Number \<Rightarrow> Inl NOT_NULL_failed
         | Whole w \<Rightarrow>
             (let row = \<lparr>crossing_id = crossingId', wait_time = w, recorded_at = localTimestamp\<rparr>
              in case run db row of
                   None \<Rightarrow> Inr (db @ [row])
                 | Some msg \<Rightarrow> Inl msg))"

text \<open>
  SQLite's \<^verbatim>\<open>strftime('%w', recorded_at)\<close>: the day of the week of the stored calendar
  date, 0 for Sunday. The days since 1970-01-01 (a Thursday) are counted in the proleptic
  Gregorian calendar.
\<close>

definition days_from_civil :: "int \<Rightarrow> nat \<Rightarrow> nat \<Rightarrow> int" where
  "days_from_civil y m d =
     (let y' = (if m \<le> 2 then y - 1 else y);
          mp = (if m > 2 then int m - 3 else int m + 9);
          doy = (153 * mp + 2) div 5 + int d - 1
      in 365 * y' + y' div 4 - y' div 100 + y' div 400 + doy - 719468)"

definition strftime_w :: "local_timestamp \<Rightarrow> nat" where
  "strftime_w t = nat ((days_from_civil (ts_year t) (ts_month t) (ts_day t) + 4) mod 7)"

text \<open>\<^verbatim>\<open>strftime('%H', recorded_at)\<close>: the hour field of the stored text.\<close>

definition strftime_H :: "local_timestamp \<Rightarrow> nat" where
  "strftime_H t = ts_hour t"

text \<open>
  \<^verbatim>\<open>ROUND(AVG(wait_time))\<close> over the wait times of one group: SQLite's \<^verbatim>\<open>ROUND\<close>
  rounds a half away from zero. The quotient is taken exactly (the floating-point
  average of a group agrees with it as long as the sum stays far below \<open>2^53\<close>).
\<close>

definition ROUND_AVG :: "int list \<Rightarrow> int" where
  "ROUND_AVG ws =
     (let s = sum_list ws; n = int (length ws)
      in if 0 \<le> s then (2 * s + n) div (2 * n) else - ((2 * (- s) + n) div (2 * n)))"

record heat_row =
  day_of_week :: nat
  hour :: nat
  avg_time :: int
  sample_count :: nat

definition group_key :: "reading \<Rightarrow> nat \<times> nat" where
  "group_key r = (strftime_w (recorded_at r), strftime_H (recorded_at r))"

text \<open>
  The prepared statement \<^verbatim>\<open>getHeatmapData\<close>: the rows of the crossing
  (\<^verbatim>\<open>WHERE\<close>), one output row per key that occurs (\<^verbatim>\<open>GROUP BY\<close>), in the order of
  the keys (\<^verbatim>\<open>ORDER BY\<close>).
\<close>

definition getHeatmapData :: "crossing_id \<Rightarrow> reading list \<Rightarrow> heat_row list" where
  "getHeatmapData crossingId' db =
     (let selected = filter (\<lambda>r. crossing_id r = crossingId') db
      in map (\<lambda>k. let g = filter (\<lambda>r. group_key r = k) selected
                   in \<lparr>day_of_week = fst k, hour = snd k,
                       avg_time = ROUND_AVG (map wait_time g), sample_count = length g\<rparr>)
             (sort (remdups (map group_key selected))))"

text \<open>A number in a template literal: its decimal digits.\<close>

fun decimal :: "nat \<Rightarrow> string" where
  "decimal n =
     (if n < 10 then [''0123456789'' ! n]
      else decimal (n div 10) @ [''0123456789'' ! (n mod 10)])"

record cell =
  day :: string
  dayIndex :: nat
  cell_hour :: nat
  avgTime :: "int option"
  sampleCount :: nat
  label :: string

record history =
  hours :: "nat list"
  days :: "string list"
  heatmap :: "cell list"

definition dayOrder :: "nat list" where
  "dayOrder = [1, 2, 3, 4, 5, 6, 0]"

definition dayNames :: "string list" where
  "dayNames = [''Mon'', ''Tue'', ''Wed'', ''Thu'', ''Fri'', ''Sat'', ''Sun'']"

text \<open>The object pushed for one day and one hour in \<^verbatim>\<open>getHistoricalData\<close>.\<close>

definition heat_cell :: "heat_row list \<Rightarrow> nat \<Rightarrow> nat \<Rightarrow> nat \<Rightarrow> cell" where
  "heat_cell rows dbDayIndex displayIndex hour' =
     (let row = find (\<lambda>r. day_of_week r = dbDayIndex \<and> hour r = hour') rows;
          displayHour = (if hour' = 0 then 12 else if hour' > 12 then hour' - 12 else hour');
          ampm = (if hour' \<ge> 12 then ''pm'' else ''am'')
      in \<lparr>day = dayNames ! displayIndex,
          dayIndex = displayIndex,
          cell_hour = hour',
          avgTime = (case row of Some r \<Rightarrow> Some (avg_time r) | None \<Rightarrow> None),
          sampleCount = (case row of Some r \<Rightarrow> sample_count r | None \<Rightarrow> 0),
          label = decimal displayHour @ ampm\<rparr>)"

definition getHistoricalData :: "crossing_id \<Rightarrow> reading list \<Rightarrow> history" where
  "getHistoricalData crossingId' db =
     (let rows = getHeatmapData crossingId' db;
          hours' = [0..<24]
      in \<lparr>hours = hours',
          days = dayNames,
          heatmap =
            concat (map (\<lambda>(displayIndex, dbDayIndex).
                           map (\<lambda>hour'. heat_cell rows dbDayIndex displayIndex hour') hours')
                        (enumerate 0 dayOrder))\<rparr>)"

section \<open>app.js: crossings, cache and refresh\<close>

text \<open>An element of \<^verbatim>\<open>CROSSINGS\<close>; the icon is an emoji, kept as its code point.\<close>

record crossing =
  id' :: crossing_id
  name :: string
  direction :: string
  area :: string
  icon :: nat

definition CROSSINGS :: "crossing list" where
  "CROSSINGS =
    [\<lparr>id' = ''gwb-into'', name = ''George Washington Bridge'', direction = ''Into Manhattan'',
      area = ''Upper Manhattan'', icon = 0x1F309\<rparr>,
     \<lparr>id' = ''gwb-out'', name = ''George Washington Bridge'', direction = ''Out of Manhattan'',
      area = ''To New Jersey'', icon = 0x1F309\<rparr>,
     \<lparr>id' = ''lincoln-into'', name = ''Lincoln Tunnel'', direction = ''Into Manhattan'',
      area = ''Midtown'', icon = 0x1F687\<rparr>,
     \<lparr>id' = ''lincoln-out'', name = ''Lincoln Tunnel'', direction = ''Out of Manhattan'',
      area = ''To New Jersey'', icon = 0x1F687\<rparr>,
     \<lparr>id' = ''holland-into'', name = ''Holland Tunnel'', direction = ''Into Manhattan'',
      area = ''Lower Manhattan'', icon = 0x1F697\<rparr>,
     \<lparr>id' = ''holland-out'', name = ''Holland Tunnel'', direction = ''Out of Manhattan'',
      area = ''To New Jersey'', icon = 0x1F697\<rparr>]"

text \<open>
  \<^verbatim>\<open>trafficCache\<close>. \<open>None\<close> stands for \<^verbatim>\<open>null\<close> and for a missing field (both are
  falsy, and the code only tests truthiness). \<open>refreshPromise\<close> holds the number of the
  promise stored in it.
\<close>

record cache =
  data :: "travel list option"
  lastUpdated :: "date option"
  refreshPromise :: "nat option"

definition CACHE_TTL :: int where
  "CACHE_TTL = 10 * 60 * 1000"

definition getStatus :: "int \<Rightarrow> string \<times> string" where
  "getStatus waitTime' =
     (if waitTime' \<le> 15 then (''Light'', ''good'')
      else if waitTime' \<le> 25 then (''Moderate'', ''moderate'')
      else (''Heavy'', ''heavy''))"

text \<open>
  The \<^verbatim>\<open>for\<close> loop of \<^verbatim>\<open>refreshTrafficData\<close> that stores the results. An
  \<^verbatim>\<open>INSERT\<close> that throws ends the loop; the rows written before it stay in the table.
  The value is the table afterwards and the message of the error thrown, if any.
\<close>

fun store_results :: "sqlite \<Rightarrow> travel list \<Rightarrow> reading list \<Rightarrow> reading list \<times> string option" where
  "store_results run [] db = (db, None)"
| "store_results run (result # results) db =
     (case waitTime result of
        None \<Rightarrow> store_results run results db
      | Some w \<Rightarrow>
          (case addReading run (crossingId result) w (timestamp result) db of
             Inl msg \<Rightarrow> (db, Some msg)
           | Inr db' \<Rightarrow> store_results run results db'))"

text \<open>
  \<^verbatim>\<open>refreshTrafficData\<close> from the point where \<^verbatim>\<open>await traffic.fetchAllTravelTimes()\<close>
  settles: the outcome of the refresh (\<open>Inl\<close> when it throws), the cache and the table
  afterwards. \<open>fetch\<close> and \<open>clock\<close> are what the network answered during the batch,
  \<open>now\<close> is the \<^verbatim>\<open>new Date()\<close> of the cache update. On success the cache object is
  replaced by one that has no \<^verbatim>\<open>refreshPromise\<close> field.
\<close>

definition refreshTrafficData ::
  "api \<Rightarrow> clock \<Rightarrow> date \<Rightarrow> sqlite \<Rightarrow> cache \<Rightarrow> reading list
     \<Rightarrow> (string + travel list) \<times> cache \<times> reading list" where
  "refreshTrafficData fetch clock now run trafficCache db =
     (case fetchAllTravelTimes fetch clock of
        Inl msg \<Rightarrow> (Inl msg, trafficCache, db)
      | Inr results \<Rightarrow>
          (case store_results run results db of
             (db', Some msg) \<Rightarrow> (Inl msg, trafficCache, db')
           | (db', None) \<Rightarrow>
               (Inr results,
                \<lparr>data = Some results, lastUpdated = Some now, refreshPromise = None\<rparr>,
                db')))"

section \<open>app.js: what the routes answer\<close>

text \<open>
  The \<^verbatim>\<open>waitTime\<close> of an answered crossing: a number, the text \<^verbatim>\<open>'--'\<close>, or
  \<^verbatim>\<open>null\<close>, which is how \<^verbatim>\<open>res.json\<close> writes a \<^verbatim>\<open>NaN\<close>.
\<close>

datatype wait_display = Minutes int | Dashes | Null

text \<open>
  An element of the array that \<^verbatim>\<open>GET /api/crossings\<close> answers: the fields of the
  crossing (\<^verbatim>\<open>...crossing\<close>) and the fields added to them. \<open>updatedAt\<close> is the epoch
  time whose ISO text the answer carries; \<open>entry_error = None\<close> is an absent
  \<^verbatim>\<open>error\<close> field.
\<close>

record entry =
  entry_crossing :: crossing
  entry_waitTime :: wait_display
  entry_status :: string
  statusClass :: string
  updatedAt :: int
  entry_error :: "string option"

text \<open>
  A double that is not negative is a pair \<open>(m, e)\<close> with \<open>m < 2^53\<close>: it is the number
  \<open>m * 2^e\<close>. The value of \<^verbatim>\<open>Math.random()\<close> is such a double below 1.
\<close>

type_synonym double = "nat \<times> int"

definition double_value :: "double \<Rightarrow> real" where
  "double_value d = real (fst d) * 2 powr real_of_int (snd d)"

definition unit_double :: "double \<Rightarrow> bool" where
  "unit_double d =
     (case d of (m, e) \<Rightarrow> m < 2 ^ 53 \<and> (m = 0 \<or> (e < 0 \<and> m < 2 ^ nat (- e))))"

text \<open>
  \<^verbatim>\<open>x * 31\<close> in double arithmetic, for \<open>x\<close> below 1: the product \<open>31 * m\<close> is below
  \<open>2^58\<close>; when it does not fit into 53 bits its last \<open>s\<close> bits are rounded away, to the
  nearest multiple of \<open>2^s\<close> and on a tie to the even one. (A mantissa \<open>2^53\<close> after
  rounding up stands for the double \<open>2^52 * 2^(e + s + 1)\<close>.)
\<close>

definition times_31 :: "double \<Rightarrow> double" where
  "times_31 d =
     (case d of (m, e) \<Rightarrow>
        let x = 31 * m;
            s = (if x < 2 ^ 53 then 0 else if x < 2 ^ 54 then 1 else if x < 2 ^ 55 then 2
                 else if x < 2 ^ 56 then 3 else if x < 2 ^ 57 then 4 else 5);
            q = x div 2 ^ s;
            r = x mod 2 ^ s
        in (if 2 ^ s < 2 * r \<or> (2 * r = 2 ^ s \<and> odd q) then q + 1 else q, e + int s))"

definition Math_floor :: "double \<Rightarrow> int" where
  "Math_floor d =
     (case d of (m, e) \<Rightarrow> if 0 \<le> e then int m * 2 ^ nat e else int m div 2 ^ nat (- e))"

text \<open>
  The mock branch. \<open>random i\<close> is the value of the \<open>i\<close>-th call of
  \<^verbatim>\<open>Math.random()\<close> and \<open>clock i\<close> the \<open>i\<close>-th \<^verbatim>\<open>new Date()\<close> of the handler.
\<close>

definition mock_crossings :: "(nat \<Rightarrow> double) \<Rightarrow> (nat \<Rightarrow> date) \<Rightarrow> entry list" where
  "mock_crossings random clock =
     map (\<lambda>(i, crossing).
            let delay = Math_floor (times_31 (random i));
                waitTime' = 10 + delay;
                (status', statusClass') = getStatus waitTime'
            in \<lparr>entry_crossing = crossing, entry_waitTime = Minutes waitTime',
                entry_status = status', statusClass = statusClass',
                updatedAt = getTime (clock i), entry_error = None\<rparr>)
         (enumerate 0 CROSSINGS)"

text \<open>The branch that answers from \<^verbatim>\<open>trafficData\<close>, the value of \<^verbatim>\<open>getCurrentTraffic()\<close>.\<close>

definition traffic_crossings :: "cache \<Rightarrow> (nat \<Rightarrow> date) \<Rightarrow> travel list \<Rightarrow> entry list" where
  "traffic_crossings trafficCache clock trafficData =
     map (\<lambda>(i, crossing).
            let trafficResult = find (\<lambda>t. crossingId t = id' crossing) trafficData;
                waitTime' = (case trafficResult of None \<Rightarrow> None | Some t \<Rightarrow> waitTime t);
                updatedAt' = (case lastUpdated trafficCache of
                                Some d \<Rightarrow> getTime d
                              | None \<Rightarrow> getTime (clock i))
            in case waitTime' of
                 None \<Rightarrow>
                   \<lparr>entry_crossing = crossing, entry_waitTime = Dashes,
                    entry_status = ''Unknown'', statusClass = ''unknown'',
                    updatedAt = updatedAt',
                    entry_error = (case trafficResult of None \<Rightarrow> None | Some t \<Rightarrow> error t)\<rparr>
               | Some (Whole w) \<Rightarrow>
                   (let (status', statusClass') = getStatus w
                    in \<lparr>entry_crossing = crossing, entry_waitTime = Minutes w,
                        entry_status = status', statusClass = statusClass',
                        updatedAt = updatedAt', entry_error = None\<rparr>)
               | Some Not_a_Number \<Rightarrow>
                   \<comment> \<open>\<^verbatim>\<open>getStatus(NaN)\<close>: both comparisons are false\<close>
                   \<lparr>entry_crossing = crossing, entry_waitTime = Null,
                    entry_status = ''Heavy'', statusClass = ''heavy'',
                    updatedAt = updatedAt', entry_error = None\<rparr>)
         (enumerate 0 CROSSINGS)"

datatype reply =
    Crossings "entry list"
  | Refreshed "date option"
  | Success
  | Failure nat string

section \<open>app.js: the server as a state machine\<close>

text \<open>
  Node runs one callback at a time and a callback runs until its next \<^verbatim>\<open>await\<close>. The
  server is therefore a state and a step function over the events of its event loop.

  A call of \<^verbatim>\<open>refreshTrafficData()\<close> runs at once into
  \<^verbatim>\<open>traffic.fetchAllTravelTimes()\<close>, which sends the first request of a batch and
  suspends; the call is then in flight until the batch settles. Between its start and
  its end a batch touches neither the cache nor the table, so its end is one event.
  Who waits for a refresh in flight:
\<close>

datatype waiter =
    Reader nat      \<comment> \<open>request \<open>n\<close> of \<^verbatim>\<open>GET /api/crossings\<close>, in \<^verbatim>\<open>await getCurrentTraffic()\<close>\<close>
  | Admin nat       \<comment> \<open>request \<open>n\<close> of \<^verbatim>\<open>POST /api/refresh\<close>, in \<^verbatim>\<open>await refreshTrafficData()\<close>\<close>
  | Scheduler       \<comment> \<open>the \<^verbatim>\<open>.catch\<close> of the start-up call or of the interval callback\<close>

record refresh =
  rid :: nat
  marked :: bool
  waiters :: "waiter list"

text \<open>
  \<open>batches\<close> counts the calls of \<^verbatim>\<open>fetchAllTravelTimes\<close> so far and numbers the
  refreshes; \<open>marked\<close> says that the refresh was started by \<^verbatim>\<open>getCurrentTraffic\<close>,
  whose \<^verbatim>\<open>.finally\<close> resets \<^verbatim>\<open>trafficCache.refreshPromise\<close>. \<open>returned\<close> lists the
  values of the calls of \<^verbatim>\<open>getCurrentTraffic\<close> (per request), \<open>responses\<close> the answers sent.
\<close>

record server =
  trafficCache :: cache
  readings :: "reading list"
  pending :: "refresh list"
  batches :: nat
  returned :: "(nat \<times> (string + travel list)) list"
  responses :: "(nat \<times> reply) list"

definition init :: server where
  "init = \<lparr>trafficCache = \<lparr>data = None, lastUpdated = None, refreshPromise = None\<rparr>,
           readings = [], pending = [], batches = 0, returned = [], responses = []\<rparr>"

text \<open>A call of \<^verbatim>\<open>refreshTrafficData()\<close> up to its \<^verbatim>\<open>await\<close>: one more batch in flight.\<close>

definition start_refresh :: "bool \<Rightarrow> waiter \<Rightarrow> server \<Rightarrow> server" where
  "start_refresh m w s =
     s\<lparr>pending := pending s @ [\<lparr>rid = batches s, marked = m, waiters = [w]\<rparr>],
       batches := batches s + 1\<rparr>"

text \<open>What a waiter does with the outcome it was waiting for.\<close>

definition notify :: "(nat \<Rightarrow> date) \<Rightarrow> string + travel list \<Rightarrow> server \<Rightarrow> waiter \<Rightarrow> server" where
  "notify clock outcome s w =
     (case w of
        Reader n \<Rightarrow>
          s\<lparr>returned := returned s @ [(n, outcome)],
            responses := responses s @
              [(n, case outcome of
                     Inr trafficData \<Rightarrow>
                       Crossings (traffic_crossings (trafficCache s) clock trafficData)
                   | Inl msg \<Rightarrow>
                       Failure 500 ''Sorry, traffic data is temporarily unavailable.'')]\<rparr>
      | Admin n \<Rightarrow>
          s\<lparr>responses := responses s @
              [(n, case outcome of
                     Inr _ \<Rightarrow> Refreshed (lastUpdated (trafficCache s))
                   | Inl msg \<Rightarrow> Failure 500 ''Sorry, unable to refresh right now.'')]\<rparr>
      | Scheduler \<Rightarrow> s)"

text \<open>
  The first \<^verbatim>\<open>if\<close> of \<^verbatim>\<open>getCurrentTraffic\<close>: the data it returns when
  \<^verbatim>\<open>trafficCache.data && cacheAge < CACHE_TTL\<close> holds at \<^verbatim>\<open>Date.now() = now\<close>.
  Without \<^verbatim>\<open>lastUpdated\<close> the age is \<^verbatim>\<open>Infinity\<close>.
\<close>

definition cached :: "cache \<Rightarrow> int \<Rightarrow> travel list option" where
  "cached c now =
     (case data c of
        None \<Rightarrow> None
      | Some d \<Rightarrow>
          (case lastUpdated c of
             None \<Rightarrow> None
           | Some t \<Rightarrow> if now - getTime t < CACHE_TTL then Some d else None))"

text \<open>\<^verbatim>\<open>await trafficCache.refreshPromise\<close>: the caller waits for the promise \<open>p\<close>.\<close>

definition join :: "nat \<Rightarrow> waiter \<Rightarrow> server \<Rightarrow> server" where
  "join p w s =
     s\<lparr>pending := map (\<lambda>r. if rid r = p then r\<lparr>waiters := waiters r @ [w]\<rparr> else r) (pending s)\<rparr>"

text \<open>
  \<^verbatim>\<open>getCurrentTraffic()\<close> called for request \<open>n\<close> when \<^verbatim>\<open>Date.now()\<close> is \<open>now\<close>:
  it returns the cached data, or waits for the promise in the cache, or starts a
  refresh and stores its promise.
\<close>

definition getCurrentTraffic :: "nat \<Rightarrow> int \<Rightarrow> (nat \<Rightarrow> date) \<Rightarrow> server \<Rightarrow> server" where
  "getCurrentTraffic n now clock s =
     (case cached (trafficCache s) now of
        Some d \<Rightarrow> notify clock (Inr d) s (Reader n)
      | None \<Rightarrow>
          (case refreshPromise (trafficCache s) of
             Some p \<Rightarrow> join p (Reader n) s
           | None \<Rightarrow>
               (start_refresh True (Reader n) s)
                 \<lparr>trafficCache := (trafficCache s)\<lparr>refreshPromise := Some (batches s)\<rparr>\<rparr>))"

text \<open>
  The batch of refresh \<open>p\<close> settles: \<^verbatim>\<open>refreshTrafficData\<close> resumes and runs to its
  end, the \<^verbatim>\<open>.finally\<close> of a marked refresh resets the marker, and the waiters go on
  with the outcome. \<open>fetch\<close>, \<open>clock\<close>, \<open>now\<close> and \<open>run\<close> are as in
  \<open>refreshTrafficData\<close>; \<open>clock'\<close> gives the dates the answering handlers take.
\<close>

definition settle ::
  "nat \<Rightarrow> api \<Rightarrow> clock \<Rightarrow> date \<Rightarrow> sqlite \<Rightarrow> (nat \<Rightarrow> date) \<Rightarrow> server \<Rightarrow> server" where
  "settle p fetch clock now run clock' s =
     (case find (\<lambda>r. rid r = p) (pending s) of
        None \<Rightarrow> s
      | Some r \<Rightarrow>
          (case refreshTrafficData fetch clock now run (trafficCache s) (readings s) of
             (outcome, cache', db') \<Rightarrow>
               foldl (notify clock' outcome)
                 (s\<lparr>trafficCache := (if marked r then cache'\<lparr>refreshPromise := None\<rparr> else cache'),
                    readings := db',
                    pending := filter (\<lambda>q. rid q \<noteq> p) (pending s)\<rparr>)
                 (waiters r)))"

datatype event =
    GET_api_crossings nat "nat \<Rightarrow> double" "nat \<Rightarrow> date" int
      \<comment> \<open>request, \<^verbatim>\<open>Math.random()\<close>, \<^verbatim>\<open>new Date()\<close>, \<^verbatim>\<open>Date.now()\<close>\<close>
  | POST_api_refresh nat
  | Scheduled
      \<comment> \<open>the call at start-up or a tick of \<^verbatim>\<open>setInterval\<close>\<close>
  | Settled nat api clock date sqlite "nat \<Rightarrow> date"

text \<open>
  One event of the server whose environment holds \<open>API_KEY\<close>. The timer and the call
  at start-up exist only under \<^verbatim>\<open>if (traffic.isConfigured())\<close>;
  \<^verbatim>\<open>POST /api/refresh\<close> calls \<^verbatim>\<open>refreshTrafficData()\<close> without that test.
\<close>

fun step :: "string option \<Rightarrow> server \<Rightarrow> event \<Rightarrow> server" where
  "step API_KEY s (GET_api_crossings n random clock now) =
     (if \<not> isConfigured API_KEY
      then s\<lparr>responses := responses s @ [(n, Crossings (mock_crossings random clock))]\<rparr>
      else getCurrentTraffic n now clock s)"
| "step API_KEY s (POST_api_refresh n) = start_refresh False (Admin n) s"
| "step API_KEY s Scheduled =
     (if isConfigured API_KEY then start_refresh False Scheduler s else s)"
| "step API_KEY s (Settled p fetch clock now run clock') = settle p fetch clock now run clock' s"

definition run_events :: "string option \<Rightarrow> server \<Rightarrow> event list \<Rightarrow> server" where
  "run_events API_KEY s evs = foldl (step API_KEY) s evs"

text \<open>The numbers of the refreshes in flight are numbers already given out.\<close>

definition numbered :: "server \<Rightarrow> bool" where
  "numbered s = list_all (\<lambda>r. rid r < batches s) (pending s)"

section \<open>app.js: a reading sent by hand\<close>

text \<open>
  A JavaScript number and a JSON value. \<^verbatim>\<open>JSON.parse\<close> gives no \<^verbatim>\<open>NaN\<close>, but
  \<^verbatim>\<open>Number\<close> may.
\<close>

datatype number = Finite real | NaN | PosInfinity | NegInfinity

datatype json =
    JNull
  | JBool bool
  | JNumber number
  | JString string
  | JArray "json list"
  | JObject "(string \<times> json) list"

text \<open>
  \<^verbatim>\<open>req.body\<close> after \<^verbatim>\<open>const { crossingId, waitTime } = req.body\<close>; \<open>None\<close> is
  \<^verbatim>\<open>undefined\<close>.
\<close>

record body =
  body_crossingId :: "json option"
  body_waitTime :: "json option"

text \<open>
  \<^verbatim>\<open>Number(v)\<close>. The conversion of a string, and of an array or object through its
  string, is the numeric-literal parser of the language; it is the parameter \<open>parse\<close>.
\<close>

definition Number :: "(json \<Rightarrow> number) \<Rightarrow> json \<Rightarrow> number" where
  "Number parse v =
     (case v of
        JNull \<Rightarrow> Finite 0
      | JBool b \<Rightarrow> Finite (if b then 1 else 0)
      | JNumber x \<Rightarrow> x
      | _ \<Rightarrow> parse v)"

definition Number_isInteger :: "number \<Rightarrow> bool" where
  "Number_isInteger x = (case x of Finite r \<Rightarrow> r = of_int \<lfloor>r\<rfloor> | _ \<Rightarrow> False)"

text \<open>\<^verbatim>\<open>x < lo || x > hi\<close> on numbers; every comparison with \<^verbatim>\<open>NaN\<close> is false.\<close>

definition outside :: "number \<Rightarrow> real \<Rightarrow> real \<Rightarrow> bool" where
  "outside x lo hi =
     (case x of
        Finite r \<Rightarrow> r < lo \<or> r > hi
      | NaN \<Rightarrow> False
      | PosInfinity \<Rightarrow> True
      | NegInfinity \<Rightarrow> True)"

text \<open>
  The handler of \<^verbatim>\<open>POST /api/readings\<close> behind the rate limiter and the admin key:
  its answer and the table afterwards. \<open>now\<close> is the default \<^verbatim>\<open>new Date()\<close> of
  \<^verbatim>\<open>addReading\<close>. The test \<^verbatim>\<open>!Number.isInteger(n) || n < 0 || n > 300\<close> is written
  as the two tests its \<^verbatim>\<open>||\<close> makes in turn. An \<^verbatim>\<open>INSERT\<close> that throws is answered by the framework with
  status 500.
\<close>

definition POST_api_readings ::
  "(json \<Rightarrow> number) \<Rightarrow> sqlite \<Rightarrow> date \<Rightarrow> body \<Rightarrow> reading list \<Rightarrow> reply \<times> reading list" where
  "POST_api_readings parse run now b db =
     (case body_crossingId b of
        Some (JString crossingId') \<Rightarrow>
          if crossingId' = [] then
            (Failure 400 ''crossingId is required and must be a string'', db)
          else if find (\<lambda>c. id' c = crossingId') CROSSINGS = None then
            (Failure 400 ''Invalid crossingId'', db)
          else
            (case body_waitTime b of
               None \<Rightarrow> (Failure 400 ''waitTime is required'', db)
             | Some JNull \<Rightarrow> (Failure 400 ''waitTime is required'', db)
             | Some waitTime' \<Rightarrow>
                 (let waitTimeNum = Number parse waitTime'
                  in if \<not> Number_isInteger waitTimeNum then
                       (Failure 400 ''waitTime must be an integer between 0 and 300 minutes'', db)
                     else if outside waitTimeNum 0 300 then
                       (Failure 400 ''waitTime must be an integer between 0 and 300 minutes'', db)
                     else
                       (case addReading run crossingId'
                               (Whole (case waitTimeNum of Finite r \<Rightarrow> \<lfloor>r\<rfloor> | _ \<Rightarrow> 0)) now db of
                          Inr db' \<Rightarrow> (Success, db')
                        | Inl msg \<Rightarrow> (Failure 500 msg, db))))
      | _ \<Rightarrow> (Failure 400 ''crossingId is required and must be a string'', db))"

section \<open>The adapter: one entry per crossing\<close>

lemma fetch_loop_eq:
  "fetch_loop fetch now cs results =
     Inr (results @ map (\<lambda>c. case fetchTravelTime fetch now c of
                               Inr t \<Rightarrow> t
                             | Inl msg \<Rightarrow> failed_entry now c msg) cs)"
  by (induction cs arbitrary: results) (auto split: sum.splits)

lemma fetchTravelTime_Inr:
  "fetchTravelTime fetch now c = Inr t \<Longrightarrow>
     crossingId t = c \<and> (\<exists>w. waitTime t = Some w) \<and> error t = None \<and> timestamp t = now c"
  by (auto simp: fetchTravelTime_def split: option.splits sum.splits if_splits list.splits)

lemma fetchAllTravelTimes_resolves:
  "fetchAllTravelTimes fetch clock =
     Inr (map (\<lambda>c. case fetchTravelTime fetch clock c of
                     Inr t \<Rightarrow> t
                   | Inl msg \<Rightarrow>
                       \<lparr>crossingId = c, waitTime = None, error = Some msg, timestamp = clock c\<rparr>)
              [''gwb-into'', ''gwb-out'', ''lincoln-into'', ''lincoln-out'',
               ''holland-into'', ''holland-out''])"
  unfolding fetchAllTravelTimes_def fetch_loop_eq failed_entry_def
  by (simp add: Object_keys_def ROUTES_def)

text \<open>
  Claim C4 says that the result of \<^verbatim>\<open>fetchAllTravelTimes\<close> holds, for each crossing,
  either a successful entry with an integer \<open>waitTime\<close> or a failure entry with
  \<open>waitTime\<close> null and the message of that crossing's error. The function indeed never
  rejects, and a fetch that throws becomes the failure entry of its crossing without
  touching the others (\<open>fetchAllTravelTimes_resolves\<close>). But \<^verbatim>\<open>fetchTravelTime\<close> does not
  throw on every malformed answer: it tests the status, the routes and the legs, not the
  \<^verbatim>\<open>value\<close> it adds up. For an answer with status \<^verbatim>\<open>OK\<close> whose only leg has a
  \<^verbatim>\<open>duration\<close> without \<^verbatim>\<open>value\<close>, the sum is \<^verbatim>\<open>0 + undefined\<close>, and the entry of
  the crossing is a resolved one whose \<open>waitTime\<close> is \<^verbatim>\<open>NaN\<close>: neither an integer nor
  null, and with no error. Here the first crossing gets such an answer, the second one a
  well-formed answer of 720 seconds, and the others fail.
\<close>

theorem malformed_leg_gives_NaN_entry:
  "(let t = \<lparr>getTime = 1000, getFullYear = 2026, getMonth = 10, getDate = 2, getHours = 8,
              getMinutes = 0, getSeconds = 1\<rparr>;
        fetch = (\<lambda>c. if c = ''gwb-into''
                      then Inr \<lparr>status = ''OK'',
                                routes = Some [Some [\<lparr>duration_in_traffic = None,
                                                      duration = Some None,
                                                      distance = Some (Some 1)\<rparr>]]\<rparr>
                      else if c = ''gwb-out''
                      then Inr \<lparr>status = ''OK'',
                                routes = Some [Some [\<lparr>duration_in_traffic = Some (Some 720),
                                                      duration = Some (Some 600),
                                                      distance = Some (Some 2000)\<rparr>]]\<rparr>
                      else Inl ''fetch failed'')
    in fetchAllTravelTimes fetch (\<lambda>c. t) =
         Inr [\<lparr>crossingId = ''gwb-into'', waitTime = Some Not_a_Number, error = None,
                timestamp = t\<rparr>,
              \<lparr>crossingId = ''gwb-out'', waitTime = Some (Whole 12), error = None,
                timestamp = t\<rparr>,
              \<lparr>crossingId = ''lincoln-into'', waitTime = None, error = Some ''fetch failed'',
                timestamp = t\<rparr>,
              \<lparr>crossingId = ''lincoln-out'', waitTime = None, error = Some ''fetch failed'',
                timestamp = t\<rparr>,
              \<lparr>crossingId = ''holland-into'', waitTime = None, error = Some ''fetch failed'',
                timestamp = t\<rparr>,
              \<lparr>crossingId = ''holland-out'', waitTime = None, error = Some ''fetch failed'',
                timestamp = t\<rparr>])"
proof -
  define t where "t = \<lparr>getTime = 1000, getFullYear = 2026, getMonth = 10, getDate = 2, getHours = 8,
              getMinutes = 0, getSeconds = 1\<rparr>"
  define fetch :: api where
    "fetch = (\<lambda>c. if c = ''gwb-into''
                      then Inr \<lparr>status = ''OK'',
                                routes = Some [Some [\<lparr>duration_in_traffic = None,
                                                      duration = Some None,
                                                      distance = Some (Some 1)\<rparr>]]\<rparr>
                      else if c = ''gwb-out''
                      then Inr \<lparr>status = ''OK'',
                                routes = Some [Some [\<lparr>duration_in_traffic = Some (Some 720),
                                                      duration = Some (Some 600),
                                                      distance = Some (Some 2000)\<rparr>]]\<rparr>
                      else Inl ''fetch failed'')"
  have "fetchAllTravelTimes fetch (\<lambda>c. t) =
         Inr [\<lparr>crossingId = ''gwb-into'', waitTime = Some Not_a_Number, error = None,
                timestamp = t\<rparr>,
              \<lparr>crossingId = ''gwb-out'', waitTime = Some (Whole 12), error = None,
                timestamp = t\<rparr>,
              \<lparr>crossingId = ''lincoln-into'', waitTime = None, error = Some ''fetch failed'',
                timestamp = t\<rparr>,
              \<lparr>crossingId = ''lincoln-out'', waitTime = None, error = Some ''fetch failed'',
                timestamp = t\<rparr>,
              \<lparr>crossingId = ''holland-into'', waitTime = None, error = Some ''fetch failed'',
                timestamp = t\<rparr>,
              \<lparr>crossingId = ''holland-out'', waitTime = None, error = Some ''fetch failed'',
                timestamp = t\<rparr>]"
    by (simp add: fetchAllTravelTimes_def fetchTravelTime_def ROUTES_def Object_keys_def
        failed_entry_def plus_value_def Math_round_div60_def fetch_def)
  then show ?thesis
    unfolding Let_def t_def[symmetric] fetch_def[symmetric] .
qed

text \<open>
  Such an entry then reaches \<^verbatim>\<open>refreshTrafficData\<close>, which hands it to
  \<^verbatim>\<open>addReading\<close> because its \<open>waitTime\<close> is not null; the \<^verbatim>\<open>INSERT\<close> throws and the
  whole refresh fails, whatever the other crossings answered.
\<close>

lemma NaN_entry_fails_refresh:
  "t \<in> set results \<Longrightarrow> waitTime t = Some Not_a_Number \<Longrightarrow>
     \<exists>msg. snd (store_results run results db) = Some msg"
proof (induction results arbitrary: db)
  case Nil
  then show ?case by simp
next
  case (Cons u us)
  show ?case
  proof (cases "u = t")
    case True
    with Cons.prems show ?thesis by (simp add: addReading_def)
  next
    case False
    with Cons.prems have "t \<in> set us" by simp
    from Cons.IH[OF this Cons.prems(2)] show ?thesis
      by (auto split: option.splits sum.splits)
  qed
qed

section \<open>The reading store: the heatmap\<close>

lemma nth_concat_rows:
  "i < length xs \<Longrightarrow> j < n \<Longrightarrow>
     concat (map (\<lambda>x. map (f x) [0..<n]) xs) ! (n * i + j) = f (xs ! i) j"
proof (induction xs arbitrary: i)
  case Nil
  then show ?case by simp
next
  case (Cons x xs)
  show ?case
  proof (cases i)
    case 0
    with Cons.prems show ?thesis by (simp add: nth_append)
  next
    case (Suc k)
    with Cons.prems have "k < length xs" by simp
    from Cons.IH[OF this Cons.prems(2)] Suc show ?thesis
      by (simp add: nth_append add.assoc)
  qed
qed

lemma length_concat_rows:
  "length (concat (map (\<lambda>x. map (f x) [0..<n]) xs)) = n * length xs"
  by (induction xs) auto

lemma find_key:
  "find (\<lambda>k. k = k0) ks = (if k0 \<in> set ks then Some k0 else None)"
  by (induction ks) auto

lemma find_map: "find P (map f xs) = map_option f (find (P \<circ> f) xs)"
  by (induction xs) auto

lemma round_div_nearest:
  fixes t n :: int
  assumes "0 < n"
  shows "\<bar>2 * n * ((2 * t + n) div (2 * n)) - 2 * t\<bar> \<le> n"
proof -
  have "2 * n * ((2 * t + n) div (2 * n)) + (2 * t + n) mod (2 * n) = 2 * t + n"
    by (rule mult_div_mod_eq)
  moreover have "0 \<le> (2 * t + n) mod (2 * n)" "(2 * t + n) mod (2 * n) < 2 * n"
    using assms by simp_all
  ultimately show ?thesis by linarith
qed

lemma ROUND_AVG_nearest:
  assumes "ws \<noteq> []"
  shows "\<bar>2 * int (length ws) * ROUND_AVG ws - 2 * sum_list ws\<bar> \<le> int (length ws)"
proof -
  define n where "n = int (length ws)"
  define s where "s = sum_list ws"
  have n: "0 < n" using assms by (simp add: n_def)
  show ?thesis
  proof (cases "0 \<le> s")
    case True
    then have "ROUND_AVG ws = (2 * s + n) div (2 * n)"
      by (simp add: ROUND_AVG_def Let_def s_def n_def)
    with round_div_nearest[OF n, of s] show ?thesis
      by (simp add: s_def n_def)
  next
    case False
    define q where "q = (2 * (- s) + n) div (2 * n)"
    from False have "ROUND_AVG ws = - q"
      by (simp add: ROUND_AVG_def Let_def s_def n_def q_def)
    moreover have "\<bar>2 * n * q - 2 * (- s)\<bar> \<le> n"
      unfolding q_def by (rule round_div_nearest[OF n])
    moreover have "2 * n * (- q) - 2 * s = - (2 * n * q - 2 * (- s))"
      by (simp add: algebra_simps)
    ultimately have "\<bar>2 * n * ROUND_AVG ws - 2 * s\<bar> \<le> n"
      by simp
    then show ?thesis by (simp add: s_def n_def)
  qed
qed

lemma ROUND_AVG_real:
  assumes "ws \<noteq> []"
  shows "\<bar>real_of_int (ROUND_AVG ws) - real_of_int (sum_list ws) / real (length ws)\<bar> \<le> 1 / 2"
proof -
  define n where "n = real (length ws)"
  have n: "0 < n" using assms by (simp add: n_def)
  have "real_of_int \<bar>2 * int (length ws) * ROUND_AVG ws - 2 * sum_list ws\<bar>
          \<le> real_of_int (int (length ws))"
    using ROUND_AVG_nearest[OF assms] by (rule iffD2[OF of_int_le_iff])
  then have "\<bar>2 * n * real_of_int (ROUND_AVG ws) - 2 * real_of_int (sum_list ws)\<bar> \<le> n"
    by (simp add: n_def)
  moreover have "2 * n * real_of_int (ROUND_AVG ws) - 2 * real_of_int (sum_list ws)
                   = (2 * n) * (real_of_int (ROUND_AVG ws) - real_of_int (sum_list ws) / n)"
    using n by (simp add: field_simps)
  ultimately have "\<bar>(2 * n) * (real_of_int (ROUND_AVG ws) - real_of_int (sum_list ws) / n)\<bar> \<le> n"
    by simp
  then have "(2 * n) * \<bar>real_of_int (ROUND_AVG ws) - real_of_int (sum_list ws) / n\<bar> \<le> n"
    using n by (simp add: abs_mult)
  then show ?thesis
    using n unfolding n_def[symmetric] by (simp add: field_simps)
qed

lemma dayOrder_nth: "di < 7 \<Longrightarrow> dayOrder ! di = (di + 1) mod 7"
proof -
  assume "di < 7"
  then have "di \<in> {0, 1, 2, 3, 4, 5, 6}" by auto
  then show ?thesis by (auto simp: dayOrder_def)
qed

lemma getHeatmapData_find:
  "find (\<lambda>r. day_of_week r = d \<and> hour r = h) (getHeatmapData cid db) =
     (let g = filter (\<lambda>r. crossing_id r = cid \<and> strftime_w (recorded_at r) = d
                            \<and> strftime_H (recorded_at r) = h) db
      in if g = [] then None
         else Some \<lparr>day_of_week = d, hour = h,
                    avg_time = ROUND_AVG (map wait_time g), sample_count = length g\<rparr>)"
proof -
  define selected where "selected = filter (\<lambda>r. crossing_id r = cid) db"
  define mk where "mk = (\<lambda>k. let g = filter (\<lambda>r. group_key r = k) selected
                   in \<lparr>day_of_week = fst k, hour = snd k,
                       avg_time = ROUND_AVG (map wait_time g), sample_count = length g\<rparr>)"
  define ks where "ks = sort (remdups (map group_key selected))"
  have rows: "getHeatmapData cid db = map mk ks"
    by (simp add: getHeatmapData_def Let_def selected_def mk_def ks_def)
  have pred: "((\<lambda>r. day_of_week r = d \<and> hour r = h) \<circ> mk) = (\<lambda>k. k = (d, h))"
    by (auto simp: mk_def Let_def fun_eq_iff)
  have g: "filter (\<lambda>r. group_key r = (d, h)) selected =
           filter (\<lambda>r. crossing_id r = cid \<and> strftime_w (recorded_at r) = d
                            \<and> strftime_H (recorded_at r) = h) db"
    by (simp add: selected_def group_key_def)
  have mem: "(d, h) \<in> set ks \<longleftrightarrow> filter (\<lambda>r. group_key r = (d, h)) selected \<noteq> []"
    by (force simp: ks_def filter_empty_conv)
  have "find (\<lambda>r. day_of_week r = d \<and> hour r = h) (getHeatmapData cid db) =
          map_option mk (if (d, h) \<in> set ks then Some (d, h) else None)"
    unfolding rows find_map pred find_key ..
  also have "\<dots> = (if filter (\<lambda>r. group_key r = (d, h)) selected = [] then None
                    else Some (mk (d, h)))"
    using mem by simp
  finally show ?thesis
    unfolding g[symmetric] by (simp add: mk_def Let_def)
qed

lemma heatmap_nth:
  assumes "di < 7" "hr < 24"
  shows "heatmap (getHistoricalData cid db) ! (24 * di + hr) =
           heat_cell (getHeatmapData cid db) ((di + 1) mod 7) di hr"
proof -
  have "heatmap (getHistoricalData cid db) =
          concat (map (\<lambda>x. map (\<lambda>h. heat_cell (getHeatmapData cid db) (snd x) (fst x) h) [0..<24])
                      (enumerate 0 dayOrder))"
    by (simp add: getHistoricalData_def Let_def case_prod_unfold)
  moreover have len: "di < length (enumerate 0 dayOrder)"
    using assms(1) by (simp add: dayOrder_def)
  moreover have "enumerate 0 dayOrder ! di = (di, (di + 1) mod 7)"
    using len dayOrder_nth[OF assms(1)] by (simp only: length_enumerate nth_enumerate_eq) simp
  ultimately show ?thesis
    using nth_concat_rows[OF len assms(2),
        of "\<lambda>x h. heat_cell (getHeatmapData cid db) (snd x) (fst x) h"]
    by simp
qed

lemma heatmap_length: "length (heatmap (getHistoricalData cid db)) = 168"
proof -
  have "heatmap (getHistoricalData cid db) =
          concat (map (\<lambda>x. map (\<lambda>h. heat_cell (getHeatmapData cid db) (snd x) (fst x) h) [0..<24])
                      (enumerate 0 dayOrder))"
    by (simp add: getHistoricalData_def Let_def case_prod_unfold)
  then show ?thesis
    by (simp only: length_concat_rows) (simp add: dayOrder_def)
qed

text \<open>
  Claim C7. For every crossing id and every table of readings, the heatmap of
  \<^verbatim>\<open>getHistoricalData\<close> has exactly \<open>7 * 24 = 168\<close> cells. The cell at position
  \<open>24 * di + hr\<close> is the cell of display day \<open>di\<close> (Monday first: day \<open>di\<close> is the
  weekday \<open>(di + 1) mod 7\<close> of the stored timestamps, where 0 is Sunday) and hour
  \<open>hr\<close>. Its sample count is the number of readings of the crossing in that bucket. With
  no reading in the bucket the mean is null and the count is zero; otherwise the mean is an
  integer at distance at most one half from the average of the wait times of the bucket.
\<close>

theorem getHistoricalData_buckets:
  "length (heatmap (getHistoricalData cid db)) = 168 \<and>
   (\<forall>di<7. \<forall>hr<24.
      let c = heatmap (getHistoricalData cid db) ! (24 * di + hr);
          b = filter (\<lambda>r. crossing_id r = cid \<and> strftime_w (recorded_at r) = (di + 1) mod 7
                            \<and> strftime_H (recorded_at r) = hr) db
      in day c = [''Mon'', ''Tue'', ''Wed'', ''Thu'', ''Fri'', ''Sat'', ''Sun''] ! di \<and>
         dayIndex c = di \<and> cell_hour c = hr \<and>
         sampleCount c = length b \<and>
         (if b = [] then avgTime c = None
          else \<exists>m. avgTime c = Some m \<and>
                 \<bar>real_of_int m - real_of_int (sum_list (map wait_time b)) / real (length b)\<bar>
                   \<le> 1 / 2))"
proof (intro conjI allI impI)
  show "length (heatmap (getHistoricalData cid db)) = 168"
    by (rule heatmap_length)
next
  fix di hr :: nat
  assume di: "di < 7" and hr: "hr < 24"
  define b where "b = filter (\<lambda>r. crossing_id r = cid \<and> strftime_w (recorded_at r) = (di + 1) mod 7
                            \<and> strftime_H (recorded_at r) = hr) db"
  have found: "find (\<lambda>r. day_of_week r = (di + 1) mod 7 \<and> hour r = hr) (getHeatmapData cid db) =
      (if b = [] then None
       else Some \<lparr>day_of_week = (di + 1) mod 7, hour = hr,
                  avg_time = ROUND_AVG (map wait_time b), sample_count = length b\<rparr>)"
    unfolding getHeatmapData_find b_def Let_def ..
  have round: "b \<noteq> [] \<Longrightarrow>
      \<bar>real_of_int (ROUND_AVG (map wait_time b)) - real_of_int (sum_list (map wait_time b)) / real (length b)\<bar>
        \<le> 1 / 2"
    using ROUND_AVG_real[of "map wait_time b"] by simp
  show "let c = heatmap (getHistoricalData cid db) ! (24 * di + hr);
          b = filter (\<lambda>r. crossing_id r = cid \<and> strftime_w (recorded_at r) = (di + 1) mod 7
                            \<and> strftime_H (recorded_at r) = hr) db
      in day c = [''Mon'', ''Tue'', ''Wed'', ''Thu'', ''Fri'', ''Sat'', ''Sun''] ! di \<and>
         dayIndex c = di \<and> cell_hour c = hr \<and>
         sampleCount c = length b \<and>
         (if b = [] then avgTime c = None
          else \<exists>m. avgTime c = Some m \<and>
                 \<bar>real_of_int m - real_of_int (sum_list (map wait_time b)) / real (length b)\<bar>
                   \<le> 1 / 2)"
    unfolding Let_def b_def[symmetric] heatmap_nth[OF di hr]
    using round found by (simp add: heat_cell_def Let_def dayNames_def)
qed

theorem getHistoricalData_buckets_witness:
  "(0::nat) < 7 \<and> (8::nat) < 24 \<and>
   (let monday = \<lparr>ts_year = 2026, ts_month = 11, ts_day = 2, ts_hour = 8,
                   ts_minute = 15, ts_second = 0\<rparr>;
        db = [\<lparr>crossing_id = ''gwb-into'', wait_time = 10, recorded_at = monday\<rparr>,
              \<lparr>crossing_id = ''gwb-out'', wait_time = 30, recorded_at = monday\<rparr>,
              \<lparr>crossing_id = ''gwb-into'', wait_time = 13, recorded_at = monday\<rparr>];
        c = heatmap (getHistoricalData ''gwb-into'' db) ! (24 * 0 + 8)
    in day c = ''Mon'' \<and> dayIndex c = 0 \<and> cell_hour c = 8 \<and> sampleCount c = 2 \<and>
       (\<exists>m. avgTime c = Some m \<and> \<bar>real_of_int m - 23 / 2\<bar> \<le> 1 / 2))"
proof -
  have h: "(0::nat) < 7" "(8::nat) < 24" by simp_all
  from getHistoricalData_buckets[THEN conjunct2, rule_format, OF h,
      of "''gwb-into''"
         "[\<lparr>crossing_id = ''gwb-into'', wait_time = 10,
             recorded_at = \<lparr>ts_year = 2026, ts_month = 11, ts_day = 2, ts_hour = 8,
                             ts_minute = 15, ts_second = 0\<rparr>\<rparr>,
           \<lparr>crossing_id = ''gwb-out'', wait_time = 30,
             recorded_at = \<lparr>ts_year = 2026, ts_month = 11, ts_day = 2, ts_hour = 8,
                             ts_minute = 15, ts_second = 0\<rparr>\<rparr>,
           \<lparr>crossing_id = ''gwb-into'', wait_time = 13,
             recorded_at = \<lparr>ts_year = 2026, ts_month = 11, ts_day = 2, ts_hour = 8,
                             ts_minute = 15, ts_second = 0\<rparr>\<rparr>]"]
  show ?thesis
    by (simp add: Let_def strftime_w_def days_from_civil_def strftime_H_def)
qed

section \<open>The cache coordinator\<close>

lemma notify_frame [simp]:
  "trafficCache (notify clk out s w) = trafficCache s"
  "readings (notify clk out s w) = readings s"
  "pending (notify clk out s w) = pending s"
  "batches (notify clk out s w) = batches s"
  by (simp_all add: notify_def split: waiter.splits)

lemma foldl_notify_frame [simp]:
  "trafficCache (foldl (notify clk out) s ws) = trafficCache s"
  "readings (foldl (notify clk out) s ws) = readings s"
  "pending (foldl (notify clk out) s ws) = pending s"
  "batches (foldl (notify clk out) s ws) = batches s"
  by (induction ws arbitrary: s; simp)+

lemma foldl_notify_readers:
  "returned (foldl (notify clk out) s (map Reader ns)) = returned s @ map (\<lambda>n. (n, out)) ns"
  by (induction ns arbitrary: s) (simp_all add: notify_def)

text \<open>
  The hypothesis \<open>numbered\<close> of the theorems below holds in every state the server
  reaches: it holds at the start and every event keeps it.
\<close>

lemma numbered_init: "numbered init"
  by (simp add: numbered_def init_def)

lemma numbered_step: "numbered s \<Longrightarrow> numbered (step API_KEY s e)"
proof (cases e)
  case (GET_api_crossings n random clk now)
  moreover assume "numbered s"
  ultimately show ?thesis
    by (auto simp: numbered_def list_all_iff getCurrentTraffic_def join_def start_refresh_def
        notify_def split: option.splits)
next
  case (POST_api_refresh n)
  moreover assume "numbered s"
  ultimately show ?thesis
    by (auto simp: numbered_def list_all_iff start_refresh_def)
next
  case Scheduled
  moreover assume "numbered s"
  ultimately show ?thesis
    by (auto simp: numbered_def list_all_iff start_refresh_def)
next
  case (Settled p fetch clock now run clk)
  moreover assume "numbered s"
  ultimately show ?thesis
    by (auto simp: numbered_def list_all_iff settle_def split: option.splits prod.splits)
qed

lemma cached_marker [simp]: "cached (c\<lparr>refreshPromise := x\<rparr>) now = cached c now"
  by (simp add: cached_def split: option.splits)

lemma stale_cached:
  "data c = None \<or> (case lastUpdated c of None \<Rightarrow> True | Some t \<Rightarrow> CACHE_TTL \<le> now - getTime t)
     \<Longrightarrow> cached c now = None"
  by (auto simp: cached_def split: option.splits)

text \<open>
  Claim C5. A call of \<^verbatim>\<open>getCurrentTraffic()\<close> made while the cache holds data whose age
  is strictly below \<open>CACHE_TTL\<close> (ten minutes) returns the cached data in the same
  step: no batch is started, the caller joins no refresh in flight, and neither the
  cache nor the table changes.
\<close>

theorem fresh_cache_returns_at_once:
  assumes "data (trafficCache s) = Some d"
    and "lastUpdated (trafficCache s) = Some t"
    and "now - getTime t < CACHE_TTL"
  shows "let s' = getCurrentTraffic n now clk s
         in returned s' = returned s @ [(n, Inr d)] \<and>
            batches s' = batches s \<and>
            pending s' = pending s \<and>
            trafficCache s' = trafficCache s \<and>
            readings s' = readings s"
  using assms by (simp add: getCurrentTraffic_def cached_def notify_def)

theorem fresh_cache_returns_at_once_witness:
  "(let t = \<lparr>getTime = 1000, getFullYear = 2026, getMonth = 10, getDate = 2, getHours = 8,
              getMinutes = 0, getSeconds = 1\<rparr>;
        d = [\<lparr>crossingId = ''gwb-into'', waitTime = Some (Whole 12), error = None, timestamp = t\<rparr>];
        s = init\<lparr>trafficCache := \<lparr>data = Some d, lastUpdated = Some t, refreshPromise = None\<rparr>\<rparr>;
        s' = getCurrentTraffic 7 600999 (\<lambda>i. t) s
    in data (trafficCache s) = Some d \<and> lastUpdated (trafficCache s) = Some t \<and>
       600999 - getTime t < CACHE_TTL \<and>
       returned s' = [(7, Inr d)] \<and> batches s' = 0 \<and> pending s' = [])"
proof -
  define t where "t = \<lparr>getTime = 1000, getFullYear = 2026, getMonth = 10, getDate = 2, getHours = 8,
              getMinutes = 0, getSeconds = 1\<rparr>"
  define d where "d = [\<lparr>crossingId = ''gwb-into'', waitTime = Some (Whole 12), error = None, timestamp = t\<rparr>]"
  define s where "s = init\<lparr>trafficCache := \<lparr>data = Some d, lastUpdated = Some t, refreshPromise = None\<rparr>\<rparr>"
  have h: "data (trafficCache s) = Some d" "lastUpdated (trafficCache s) = Some t"
    "600999 - getTime t < CACHE_TTL"
    by (simp_all add: s_def t_def CACHE_TTL_def)
  from fresh_cache_returns_at_once[OF h, of 7 "\<lambda>i. t"] h
  show ?thesis
    unfolding Let_def t_def[symmetric] d_def[symmetric] s_def[symmetric]
    by (simp add: Let_def) (simp add: s_def init_def)
qed

lemma joins:
  assumes "isConfigured API_KEY"
    and "list_all (\<lambda>r. rid r \<noteq> p) ps"
    and "pending s = ps @ [\<lparr>rid = p, marked = m, waiters = ws\<rparr>]"
    and "refreshPromise (trafficCache s) = Some p"
    and "list_all (\<lambda>(n, random, clk, now). cached (trafficCache s) now = None) cs"
  shows "run_events API_KEY s (map (\<lambda>(n, random, clk, now). GET_api_crossings n random clk now) cs) =
           s\<lparr>pending := ps @ [\<lparr>rid = p, marked = m, waiters = ws @ map (\<lambda>c. Reader (fst c)) cs\<rparr>]\<rparr>"
  using assms(2-)
proof (induction cs arbitrary: s ws)
  case Nil
  then show ?case by (simp add: run_events_def)
next
  case (Cons c cs)
  obtain n random clk now where c: "c = (n, random, clk, now)" by (cases c) auto
  define s' where "s' = s\<lparr>pending := ps @ [\<lparr>rid = p, marked = m, waiters = ws @ [Reader n]\<rparr>]\<rparr>"
  have same: "map (\<lambda>r. if rid r = p then r\<lparr>waiters := waiters r @ [Reader n]\<rparr> else r) ps = ps"
    using Cons.prems(1) by (induction ps) auto
  have step1: "step API_KEY s (GET_api_crossings n random clk now) = s'"
    using assms(1) Cons.prems c
    by (simp add: getCurrentTraffic_def join_def s'_def same)
  have "run_events API_KEY s' (map (\<lambda>(n, random, clk, now). GET_api_crossings n random clk now) cs) =
           s'\<lparr>pending := ps @ [\<lparr>rid = p, marked = m, waiters = (ws @ [Reader n]) @ map (\<lambda>c. Reader (fst c)) cs\<rparr>]\<rparr>"
    using Cons.prems by (intro Cons.IH) (simp_all add: s'_def)
  then show ?case
    using step1 by (simp add: run_events_def c s'_def)
qed

lemma first_call:
  assumes "isConfigured API_KEY"
    and "refreshPromise (trafficCache s) = None"
    and "cached (trafficCache s) now = None"
  shows "step API_KEY s (GET_api_crossings n random clk now) =
           s\<lparr>trafficCache := (trafficCache s)\<lparr>refreshPromise := Some (batches s)\<rparr>,
             pending := pending s @ [\<lparr>rid = batches s, marked = True, waiters = [Reader n]\<rparr>],
             batches := batches s + 1\<rparr>"
  using assms by (simp add: getCurrentTraffic_def start_refresh_def)

lemma calls_then_wait:
  assumes "isConfigured API_KEY"
    and "numbered s"
    and "refreshPromise (trafficCache s) = None"
    and "cs \<noteq> []"
    and "list_all (\<lambda>(n, random, clk, now). cached (trafficCache s) now = None) cs"
  shows "run_events API_KEY s (map (\<lambda>(n, random, clk, now). GET_api_crossings n random clk now) cs) =
           s\<lparr>trafficCache := (trafficCache s)\<lparr>refreshPromise := Some (batches s)\<rparr>,
             pending := pending s @
               [\<lparr>rid = batches s, marked = True, waiters = map (\<lambda>c. Reader (fst c)) cs\<rparr>],
             batches := batches s + 1\<rparr>"
proof -
  obtain c cs' where cs: "cs = c # cs'" using assms(4) by (cases cs) auto
  obtain n random clk now where c: "c = (n, random, clk, now)" by (cases c) auto
  define s1 where "s1 = s\<lparr>trafficCache := (trafficCache s)\<lparr>refreshPromise := Some (batches s)\<rparr>,
             pending := pending s @ [\<lparr>rid = batches s, marked = True, waiters = [Reader n]\<rparr>],
             batches := batches s + 1\<rparr>"
  have step1: "step API_KEY s (GET_api_crossings n random clk now) = s1"
    unfolding s1_def using assms(1,3,5) by (intro first_call) (simp_all add: cs c)
  have fresh: "list_all (\<lambda>r. rid r \<noteq> batches s) (pending s)"
    using assms(2) by (auto simp: numbered_def list_all_iff)
  have "run_events API_KEY s1 (map (\<lambda>(n, random, clk, now). GET_api_crossings n random clk now) cs') =
          s1\<lparr>pending := pending s @
               [\<lparr>rid = batches s, marked = True, waiters = [Reader n] @ map (\<lambda>c. Reader (fst c)) cs'\<rparr>]\<rparr>"
    using assms(5) by (intro joins[OF assms(1) fresh]) (simp_all add: s1_def cs)
  then show ?thesis
    using step1 by (simp add: run_events_def cs c s1_def)
qed

lemma refresh_outcome_cache:
  "fst (refreshTrafficData fetch clock now run c db) = fst (refreshTrafficData fetch clock now run c' db)"
  "snd (snd (refreshTrafficData fetch clock now run c db)) =
     snd (snd (refreshTrafficData fetch clock now run c' db))"
  by (simp_all add: refreshTrafficData_def split: sum.splits prod.splits option.splits)

lemma refresh_failure_cache:
  "fst (refreshTrafficData fetch clock now run c db) = Inl msg \<Longrightarrow>
     fst (snd (refreshTrafficData fetch clock now run c db)) = c"
  by (auto simp: refreshTrafficData_def split: sum.splits prod.splits option.splits)

lemma settle_last:
  assumes "list_all (\<lambda>r. rid r \<noteq> p) ps"
    and "pending s = ps @ [\<lparr>rid = p, marked = m, waiters = ws\<rparr>]"
    and "refreshTrafficData fetch clock now run (trafficCache s) (readings s) = (outcome, c', db')"
  shows "settle p fetch clock now run clk s =
           foldl (notify clk outcome)
             (s\<lparr>trafficCache := (if m then c'\<lparr>refreshPromise := None\<rparr> else c'),
                readings := db', pending := ps\<rparr>) ws"
proof -
  have "find (\<lambda>r. rid r = p) (ps @ [\<lparr>rid = p, marked = m, waiters = ws\<rparr>]) =
          Some \<lparr>rid = p, marked = m, waiters = ws\<rparr>"
    using assms(1) by (induction ps) auto
  moreover have "filter (\<lambda>q. rid q \<noteq> p) (ps @ [\<lparr>rid = p, marked = m, waiters = ws\<rparr>]) = ps"
    using assms(1) by (induction ps) auto
  ultimately show ?thesis
    using assms(2,3) by (simp add: settle_def)
qed

text \<open>
  Claim C1. On a configured server, let any number \<open>N \<ge> 1\<close> of calls of
  \<^verbatim>\<open>getCurrentTraffic()\<close> arrive while the cache is stale for each of them (no data, or
  an age of at least \<open>CACHE_TTL\<close>) and no refresh is marked in flight, and let the batch
  then settle. From the first call to the settling, \<^verbatim>\<open>fetchAllTravelTimes\<close> is called
  exactly once (no call has returned before the batch settles), and every one of the
  \<open>N\<close> callers receives the same outcome, that of this one refresh.
\<close>

theorem concurrent_calls_share_one_batch:
  assumes "isConfigured API_KEY"
    and "numbered s"
    and "refreshPromise (trafficCache s) = None"
    and "cs \<noteq> []"
    and "\<forall>(n, random, clk, now) \<in> set cs.
           data (trafficCache s) = None \<or>
           (case lastUpdated (trafficCache s) of
              None \<Rightarrow> True
            | Some t \<Rightarrow> CACHE_TTL \<le> now - getTime t)"
  shows "let calls = map (\<lambda>(n, random, clk, now). GET_api_crossings n random clk now) cs;
             s1 = run_events API_KEY s calls;
             s2 = step API_KEY s1 (Settled (batches s) fetch clock now' run clk');
             outcome = fst (refreshTrafficData fetch clock now' run (trafficCache s) (readings s))
         in batches s1 = batches s + 1 \<and>
            returned s1 = returned s \<and>
            batches s2 = batches s + 1 \<and>
            returned s2 = returned s @ map (\<lambda>c. (fst c, outcome)) cs"
proof -
  define s1 where
    "s1 = run_events API_KEY s (map (\<lambda>(n, random, clk, now). GET_api_crossings n random clk now) cs)"
  have stale: "list_all (\<lambda>(n, random, clk, now). cached (trafficCache s) now = None) cs"
    using assms(5) by (auto simp: list_all_iff intro!: stale_cached)
  have s1: "s1 = s\<lparr>trafficCache := (trafficCache s)\<lparr>refreshPromise := Some (batches s)\<rparr>,
             pending := pending s @
               [\<lparr>rid = batches s, marked = True, waiters = map (\<lambda>c. Reader (fst c)) cs\<rparr>],
             batches := batches s + 1\<rparr>"
    unfolding s1_def by (rule calls_then_wait[OF assms(1-4) stale])
  have fresh: "list_all (\<lambda>r. rid r \<noteq> batches s) (pending s)"
    using assms(2) by (auto simp: numbered_def list_all_iff)
  obtain outcome c' db' where
    r: "refreshTrafficData fetch clock now' run (trafficCache s1) (readings s1) = (outcome, c', db')"
    by (cases "refreshTrafficData fetch clock now' run (trafficCache s1) (readings s1)") auto
  have out: "fst (refreshTrafficData fetch clock now' run (trafficCache s) (readings s)) = outcome"
    using r refresh_outcome_cache(1)[of fetch clock now' run "trafficCache s" "readings s" "trafficCache s1"]
    by (simp add: s1)
  have "settle (batches s) fetch clock now' run clk' s1 =
          foldl (notify clk' outcome)
             (s1\<lparr>trafficCache := (if True then c'\<lparr>refreshPromise := None\<rparr> else c'),
                readings := db', pending := pending s\<rparr>) (map (\<lambda>c. Reader (fst c)) cs)"
    by (rule settle_last[OF fresh _ r]) (simp add: s1)
  then have s2: "settle (batches s) fetch clock now' run clk' s1 =
          foldl (notify clk' outcome)
             (s1\<lparr>trafficCache := c'\<lparr>refreshPromise := None\<rparr>,
                readings := db', pending := pending s\<rparr>) (map Reader (map fst cs))"
    by (simp add: comp_def)
  have "batches s1 = batches s + 1" "returned s1 = returned s"
    by (simp_all add: s1)
  moreover have "batches (settle (batches s) fetch clock now' run clk' s1) = batches s + 1"
    unfolding s2 by (simp add: s1)
  moreover have "returned (settle (batches s) fetch clock now' run clk' s1) =
                   returned s @ map (\<lambda>c. (fst c, outcome)) cs"
    unfolding s2 foldl_notify_readers by (simp add: s1 comp_def)
  ultimately show ?thesis
    unfolding Let_def s1_def[symmetric] out by simp
qed

theorem concurrent_calls_share_one_batch_witness:
  "(let API_KEY = Some ''key'';
        t = \<lparr>getTime = 1000, getFullYear = 2026, getMonth = 10, getDate = 2, getHours = 8,
              getMinutes = 0, getSeconds = 1\<rparr>;
        cs = [(1, \<lambda>i. (0, 0), \<lambda>i. t, 990), (2, \<lambda>i. (0, 0), \<lambda>i. t, 995)];
        s1 = run_events API_KEY init
               (map (\<lambda>(n, random, clk, now). GET_api_crossings n random clk now) cs);
        s2 = step API_KEY s1
               (Settled (batches init) (\<lambda>c. Inl ''fetch failed'') (\<lambda>c. t) t (\<lambda>db r. None) (\<lambda>i. t));
        outcome = fst (refreshTrafficData (\<lambda>c. Inl ''fetch failed'') (\<lambda>c. t) t (\<lambda>db r. None)
                         (trafficCache init) (readings init))
    in isConfigured API_KEY \<and> numbered init \<and> refreshPromise (trafficCache init) = None \<and>
       cs \<noteq> [] \<and> data (trafficCache init) = None \<and>
       batches s1 = batches init + 1 \<and>
       returned s1 = returned init \<and>
       batches s2 = batches init + 1 \<and>
       returned s2 = returned init @ map (\<lambda>c. (fst c, outcome)) cs)"
proof -
  define t where "t = \<lparr>getTime = 1000, getFullYear = 2026, getMonth = 10, getDate = 2, getHours = 8,
              getMinutes = 0, getSeconds = 1\<rparr>"
  define cs :: "(nat \<times> (nat \<Rightarrow> double) \<times> (nat \<Rightarrow> date) \<times> int) list"
    where "cs = [(1, \<lambda>i. (0, 0), \<lambda>i. t, 990), (2, \<lambda>i. (0, 0), \<lambda>i. t, 995)]"
  have h: "isConfigured (Some ''key'')" "numbered init" "refreshPromise (trafficCache init) = None"
    "cs \<noteq> []"
    "\<forall>(n, random, clk, now) \<in> set cs.
           data (trafficCache init) = None \<or>
           (case lastUpdated (trafficCache init) of
              None \<Rightarrow> True
            | Some t \<Rightarrow> CACHE_TTL \<le> now - getTime t)"
    by (simp_all add: isConfigured_def numbered_def init_def cs_def)
  have e: "data (trafficCache init) = None"
    by (simp add: init_def)
  from concurrent_calls_share_one_batch[OF h,
      of "\<lambda>c. Inl ''fetch failed''" "\<lambda>c. t" t "\<lambda>db r. None" "\<lambda>i. t"] h(1-4) e
  show ?thesis
    unfolding Let_def t_def[symmetric] cs_def[symmetric] by simp
qed

lemma settle_failure_frame:
  assumes "fst (refreshTrafficData fetch clock now run (trafficCache s) (readings s)) = Inl msg"
  shows "data (trafficCache (settle p fetch clock now run clk s)) = data (trafficCache s)"
    and "lastUpdated (trafficCache (settle p fetch clock now run clk s)) = lastUpdated (trafficCache s)"
  using assms refresh_failure_cache[OF assms]
  by (auto simp: settle_def split: option.splits prod.splits)

text \<open>
  Claim C3. Let a refresh be started by \<^verbatim>\<open>getCurrentTraffic()\<close> on a stale cache, let
  further callers join it, and let it fail (\<^verbatim>\<open>refreshTrafficData\<close> throws an error
  with message \<open>msg\<close>). Then the data and the time stamp of the cache are as they were
  before the refresh started, the marker \<^verbatim>\<open>refreshPromise\<close> is cleared and the
  refresh is no longer in flight, the caller that started the refresh and every caller
  that joined it receive the failure, and a later call on the still stale cache starts a
  new refresh.
\<close>

theorem failed_refresh_keeps_cache:
  assumes "isConfigured API_KEY"
    and "numbered s"
    and "refreshPromise (trafficCache s) = None"
    and "cs \<noteq> []"
    and "\<forall>(n, random, clk, now) \<in> set cs.
           data (trafficCache s) = None \<or>
           (case lastUpdated (trafficCache s) of
              None \<Rightarrow> True
            | Some t \<Rightarrow> CACHE_TTL \<le> now - getTime t)"
    and "fst (refreshTrafficData fetch clock now' run (trafficCache s) (readings s)) = Inl msg"
  shows "let calls = map (\<lambda>(n, random, clk, now). GET_api_crossings n random clk now) cs;
             s2 = run_events API_KEY s (calls @ [Settled (batches s) fetch clock now' run clk'])
         in data (trafficCache s2) = data (trafficCache s) \<and>
            lastUpdated (trafficCache s2) = lastUpdated (trafficCache s) \<and>
            refreshPromise (trafficCache s2) = None \<and>
            pending s2 = pending s \<and>
            returned s2 = returned s @ map (\<lambda>c. (fst c, Inl msg)) cs \<and>
            (\<forall>n random clk now.
               cached (trafficCache s) now = None \<longrightarrow>
               batches (step API_KEY s2 (GET_api_crossings n random clk now)) = batches s2 + 1)"
proof -
  define s1 where
    "s1 = run_events API_KEY s (map (\<lambda>(n, random, clk, now). GET_api_crossings n random clk now) cs)"
  define s2 where "s2 = settle (batches s) fetch clock now' run clk' s1"
  have stale: "list_all (\<lambda>(n, random, clk, now). cached (trafficCache s) now = None) cs"
    using assms(5) by (auto simp: list_all_iff intro!: stale_cached)
  have s1: "s1 = s\<lparr>trafficCache := (trafficCache s)\<lparr>refreshPromise := Some (batches s)\<rparr>,
             pending := pending s @
               [\<lparr>rid = batches s, marked = True, waiters = map (\<lambda>c. Reader (fst c)) cs\<rparr>],
             batches := batches s + 1\<rparr>"
    unfolding s1_def by (rule calls_then_wait[OF assms(1-4) stale])
  have fresh: "list_all (\<lambda>r. rid r \<noteq> batches s) (pending s)"
    using assms(2) by (auto simp: numbered_def list_all_iff)
  have out: "fst (refreshTrafficData fetch clock now' run (trafficCache s1) (readings s1)) = Inl msg"
    using assms(6)
      refresh_outcome_cache(1)[of fetch clock now' run "trafficCache s" "readings s" "trafficCache s1"]
    by (simp add: s1)
  obtain db' where
    r: "refreshTrafficData fetch clock now' run (trafficCache s1) (readings s1) =
          (Inl msg, trafficCache s1, db')"
    using out refresh_failure_cache[OF out]
    by (cases "refreshTrafficData fetch clock now' run (trafficCache s1) (readings s1)") auto
  have "s2 = foldl (notify clk' (Inl msg))
             (s1\<lparr>trafficCache := (if True then (trafficCache s1)\<lparr>refreshPromise := None\<rparr>
                                   else trafficCache s1),
                readings := db', pending := pending s\<rparr>) (map (\<lambda>c. Reader (fst c)) cs)"
    unfolding s2_def by (rule settle_last[OF fresh _ r]) (simp add: s1)
  then have s2: "s2 = foldl (notify clk' (Inl msg))
             (s1\<lparr>trafficCache := (trafficCache s1)\<lparr>refreshPromise := None\<rparr>,
                readings := db', pending := pending s\<rparr>) (map Reader (map fst cs))"
    by (simp add: comp_def)
  have cache: "trafficCache s2 = (trafficCache s)\<lparr>refreshPromise := None\<rparr>"
    unfolding s2 by (simp add: s1)
  have "returned s2 = returned s @ map (\<lambda>c. (fst c, Inl msg)) cs"
    unfolding s2 foldl_notify_readers by (simp add: s1 comp_def)
  moreover have "pending s2 = pending s"
    unfolding s2 by simp
  moreover have "batches (step API_KEY s2 (GET_api_crossings n random clk now)) = batches s2 + 1"
    if "cached (trafficCache s) now = None" for n random clk now
    using that first_call[of API_KEY s2 now n random clk] assms(1) by (simp add: cache)
  moreover have "run_events API_KEY s
      (map (\<lambda>(n, random, clk, now). GET_api_crossings n random clk now) cs
        @ [Settled (batches s) fetch clock now' run clk']) = s2"
    by (simp add: run_events_def s2_def s1_def)
  ultimately show ?thesis
    unfolding Let_def by (simp add: cache)
qed

theorem failed_refresh_keeps_cache_witness:
  "(let API_KEY = Some ''key'';
        t = \<lparr>getTime = 1000, getFullYear = 2026, getMonth = 10, getDate = 2, getHours = 8,
              getMinutes = 0, getSeconds = 1\<rparr>;
        fetch = (\<lambda>c. if c = ''gwb-out''
                      then Inr \<lparr>status = ''OK'',
                                routes = Some [Some [\<lparr>duration_in_traffic = Some (Some 720),
                                                      duration = Some (Some 600), distance = Some (Some 2000)\<rparr>]]\<rparr>
                      else Inl ''fetch failed'');
        run = (\<lambda>db r. Some ''database or disk is full'');
        s2 = run_events API_KEY init
               [GET_api_crossings 1 (\<lambda>i. (0, 0)) (\<lambda>i. t) 990,
                GET_api_crossings 2 (\<lambda>i. (0, 0)) (\<lambda>i. t) 995,
                Settled 0 fetch (\<lambda>c. t) t run (\<lambda>i. t)]
    in isConfigured API_KEY \<and> numbered init \<and> refreshPromise (trafficCache init) = None \<and>
       data (trafficCache init) = None \<and>
       fst (refreshTrafficData fetch (\<lambda>c. t) t run (trafficCache init) (readings init)) =
         Inl ''database or disk is full'' \<and>
       data (trafficCache s2) = None \<and>
       lastUpdated (trafficCache s2) = None \<and>
       refreshPromise (trafficCache s2) = None \<and>
       pending s2 = [] \<and>
       returned s2 = [(1, Inl ''database or disk is full''), (2, Inl ''database or disk is full'')] \<and>
       batches (step API_KEY s2 (GET_api_crossings 3 (\<lambda>i. (0, 0)) (\<lambda>i. t) 2000)) = batches s2 + 1)"
proof -
  define t where "t = \<lparr>getTime = 1000, getFullYear = 2026, getMonth = 10, getDate = 2, getHours = 8,
              getMinutes = 0, getSeconds = 1\<rparr>"
  define fetch :: api where "fetch = (\<lambda>c. if c = ''gwb-out''
                      then Inr \<lparr>status = ''OK'',
                                routes = Some [Some [\<lparr>duration_in_traffic = Some (Some 720),
                                                      duration = Some (Some 600), distance = Some (Some 2000)\<rparr>]]\<rparr>
                      else Inl ''fetch failed'')"
  define run :: sqlite where "run = (\<lambda>db r. Some ''database or disk is full'')"
  define cs :: "(nat \<times> (nat \<Rightarrow> double) \<times> (nat \<Rightarrow> date) \<times> int) list"
    where "cs = [(1, \<lambda>i. (0, 0), \<lambda>i. t, 990), (2, \<lambda>i. (0, 0), \<lambda>i. t, 995)]"
  have h: "isConfigured (Some ''key'')" "numbered init" "refreshPromise (trafficCache init) = None"
    "cs \<noteq> []"
    "\<forall>(n, random, clk, now) \<in> set cs.
           data (trafficCache init) = None \<or>
           (case lastUpdated (trafficCache init) of
              None \<Rightarrow> True
            | Some t \<Rightarrow> CACHE_TTL \<le> now - getTime t)"
    by (simp_all add: isConfigured_def numbered_def init_def cs_def)
  have f: "fst (refreshTrafficData fetch (\<lambda>c. t) t run (trafficCache init) (readings init)) =
         Inl ''database or disk is full''"
    by (simp add: refreshTrafficData_def fetchAllTravelTimes_def fetchTravelTime_def plus_value_def Math_round_div60_def ROUTES_def
        Object_keys_def fetch_def run_def failed_entry_def addReading_def init_def)
  have e: "data (trafficCache init) = None" "lastUpdated (trafficCache init) = None"
    "pending init = []" "returned init = []" "batches init = 0"
    "cached (trafficCache init) 2000 = None"
    by (simp_all add: init_def cached_def)
  note c = failed_refresh_keeps_cache[OF h f, of "\<lambda>i. t", unfolded Let_def]
  from c have r: "batches (step (Some ''key'')
        (run_events (Some ''key'') init
          (map (\<lambda>(n, random, clk, now). GET_api_crossings n random clk now) cs @
            [Settled (batches init) fetch (\<lambda>c. t) t run (\<lambda>i. t)]))
        (GET_api_crossings 3 (\<lambda>i. (0, 0)) (\<lambda>i. t) 2000)) =
      batches (run_events (Some ''key'') init
          (map (\<lambda>(n, random, clk, now). GET_api_crossings n random clk now) cs @
            [Settled (batches init) fetch (\<lambda>c. t) t run (\<lambda>i. t)])) + 1"
    using e(6) by blast
  from c r h(1-3) e f show ?thesis
    unfolding Let_def t_def[symmetric] fetch_def[symmetric] run_def[symmetric]
    by (simp add: cs_def)
qed

lemma store_results_rows:
  "store_results run results db = (db', None) \<Longrightarrow>
     (\<forall>t \<in> set results. waitTime t \<noteq> Some Not_a_Number) \<and>
     db' = db @ concat (map (\<lambda>t. case waitTime t of
                                    None \<Rightarrow> []
                                  | Some Not_a_Number \<Rightarrow> []
                                  | Some (Whole w) \<Rightarrow>
                                      [\<lparr>crossing_id = crossingId t, wait_time = w,
                                        recorded_at =
                                          \<lparr>ts_year = getFullYear (timestamp t),
                                           ts_month = getMonth (timestamp t) + 1,
                                           ts_day = getDate (timestamp t),
                                           ts_hour = getHours (timestamp t),
                                           ts_minute = getMinutes (timestamp t),
                                           ts_second = getSeconds (timestamp t)\<rparr>\<rparr>]) results)"
proof (induction results arbitrary: db)
  case Nil
  then show ?case by simp
next
  case (Cons t ts)
  show ?case
  proof (cases "waitTime t")
    case None
    with Cons show ?thesis by simp
  next
    case (Some v)
    with Cons.prems obtain db1 where
      a: "addReading run (crossingId t) v (timestamp t) db = Inr db1"
      and rest: "store_results run ts db1 = (db', None)"
      by (auto split: sum.splits)
    from a obtain w where v: "v = Whole w"
      by (cases v) (simp_all add: addReading_def)
    from a v have "db1 = db @ [\<lparr>crossing_id = crossingId t, wait_time = w,
                                        recorded_at =
                                          \<lparr>ts_year = getFullYear (timestamp t),
                                           ts_month = getMonth (timestamp t) + 1,
                                           ts_day = getDate (timestamp t),
                                           ts_hour = getHours (timestamp t),
                                           ts_minute = getMinutes (timestamp t),
                                           ts_second = getSeconds (timestamp t)\<rparr>\<rparr>]"
      by (auto simp: addReading_def Let_def split: option.splits)
    with Cons.IH[OF rest] Some v show ?thesis by simp
  qed
qed

text \<open>
  Claim C6. When a refresh in flight (whoever started it) ends with success, its results
  are those of \<^verbatim>\<open>fetchAllTravelTimes\<close>, and the table afterwards is the table before
  followed by exactly one row for each result whose \<open>waitTime\<close> is not null, in the
  order of the results, with that result's crossing id, wait time and time stamp (in
  local calendar fields); a result whose \<open>waitTime\<close> is null adds no row. (No result of
  a successful refresh has the \<open>waitTime\<close> \<^verbatim>\<open>NaN\<close>: every \<open>waitTime\<close> that is not
  null is an integer, the one stored.)
\<close>

theorem successful_refresh_stores_valid_results:
  assumes "find (\<lambda>r. rid r = p) (pending s) = Some r"
    and "fst (refreshTrafficData fetch clock now run (trafficCache s) (readings s)) = Inr results"
  shows "fetchAllTravelTimes fetch clock = Inr results \<and>
         (\<forall>t \<in> set results. waitTime t \<noteq> Some Not_a_Number) \<and>
         readings (step API_KEY s (Settled p fetch clock now run clk)) =
           readings s @
           concat (map (\<lambda>t. case waitTime t of
                               None \<Rightarrow> []
                             | Some Not_a_Number \<Rightarrow> []
                             | Some (Whole w) \<Rightarrow>
                                 [\<lparr>crossing_id = crossingId t, wait_time = w,
                                   recorded_at =
                                     \<lparr>ts_year = getFullYear (timestamp t),
                                      ts_month = getMonth (timestamp t) + 1,
                                      ts_day = getDate (timestamp t),
                                      ts_hour = getHours (timestamp t),
                                      ts_minute = getMinutes (timestamp t),
                                      ts_second = getSeconds (timestamp t)\<rparr>\<rparr>]) results)"
proof -
  from assms(2) obtain db' where
    f: "fetchAllTravelTimes fetch clock = Inr results"
    and st: "store_results run results (readings s) = (db', None)"
    and r: "refreshTrafficData fetch clock now run (trafficCache s) (readings s) =
              (Inr results, \<lparr>data = Some results, lastUpdated = Some now, refreshPromise = None\<rparr>, db')"
    by (auto simp: refreshTrafficData_def split: sum.splits prod.splits option.splits)
  have "readings (settle p fetch clock now run clk s) = db'"
    using assms(1) r by (simp add: settle_def)
  with f store_results_rows[OF st] show ?thesis by simp
qed

theorem successful_refresh_stores_valid_results_witness:
  "(let API_KEY = Some ''key'';
        t = \<lparr>getTime = 1000, getFullYear = 2026, getMonth = 10, getDate = 2, getHours = 8,
              getMinutes = 0, getSeconds = 1\<rparr>;
        fetch = (\<lambda>c. if c = ''gwb-into'' then Inr \<lparr>status = ''OVER_QUERY_LIMIT'', routes = None\<rparr>
                      else if c = ''gwb-out''
                      then Inr \<lparr>status = ''OK'',
                                routes = Some [Some [\<lparr>duration_in_traffic = Some (Some 720),
                                                      duration = Some (Some 600), distance = Some (Some 2000)\<rparr>]]\<rparr>
                      else Inl ''fetch failed'');
        s = step API_KEY init Scheduled;
        s' = step API_KEY s (Settled 0 fetch (\<lambda>c. t) t (\<lambda>db r. None) (\<lambda>i. t))
    in find (\<lambda>r. rid r = 0) (pending s) = Some \<lparr>rid = 0, marked = False, waiters = [Scheduler]\<rparr> \<and>
       map (\<lambda>t. (crossingId t, waitTime t, error t))
           (case fetchAllTravelTimes fetch (\<lambda>c. t) of Inr results \<Rightarrow> results | Inl e \<Rightarrow> []) =
         [(''gwb-into'', None, Some ''API error: OVER_QUERY_LIMIT''),
          (''gwb-out'', Some (Whole 12), None),
          (''lincoln-into'', None, Some ''fetch failed''),
          (''lincoln-out'', None, Some ''fetch failed''),
          (''holland-into'', None, Some ''fetch failed''),
          (''holland-out'', None, Some ''fetch failed'')] \<and>
       readings s' =
         [\<lparr>crossing_id = ''gwb-out'', wait_time = 12,
           recorded_at = \<lparr>ts_year = 2026, ts_month = 11, ts_day = 2, ts_hour = 8,
                           ts_minute = 0, ts_second = 1\<rparr>\<rparr>])"
proof -
  define t where "t = \<lparr>getTime = 1000, getFullYear = 2026, getMonth = 10, getDate = 2, getHours = 8,
              getMinutes = 0, getSeconds = 1\<rparr>"
  define fetch :: api where
    "fetch = (\<lambda>c. if c = ''gwb-into'' then Inr \<lparr>status = ''OVER_QUERY_LIMIT'', routes = None\<rparr>
                      else if c = ''gwb-out''
                      then Inr \<lparr>status = ''OK'',
                                routes = Some [Some [\<lparr>duration_in_traffic = Some (Some 720),
                                                      duration = Some (Some 600), distance = Some (Some 2000)\<rparr>]]\<rparr>
                      else Inl ''fetch failed'')"
  define results where
    "results = [\<lparr>crossingId = ''gwb-into'', waitTime = None,
                  error = Some ''API error: OVER_QUERY_LIMIT'', timestamp = t\<rparr>,
                \<lparr>crossingId = ''gwb-out'', waitTime = Some (Whole 12), error = None, timestamp = t\<rparr>,
                \<lparr>crossingId = ''lincoln-into'', waitTime = None,
                  error = Some ''fetch failed'', timestamp = t\<rparr>,
                \<lparr>crossingId = ''lincoln-out'', waitTime = None,
                  error = Some ''fetch failed'', timestamp = t\<rparr>,
                \<lparr>crossingId = ''holland-into'', waitTime = None,
                  error = Some ''fetch failed'', timestamp = t\<rparr>,
                \<lparr>crossingId = ''holland-out'', waitTime = None,
                  error = Some ''fetch failed'', timestamp = t\<rparr>]"
  define s where "s = step (Some ''key'') init Scheduled"
  have h1: "find (\<lambda>r. rid r = 0) (pending s) = Some \<lparr>rid = 0, marked = False, waiters = [Scheduler]\<rparr>"
    by (simp add: s_def isConfigured_def start_refresh_def init_def)
  have h2: "fst (refreshTrafficData fetch (\<lambda>c. t) t (\<lambda>db r. None) (trafficCache s) (readings s)) =
              Inr results"
    by (simp add: refreshTrafficData_def fetchAllTravelTimes_def fetchTravelTime_def plus_value_def ROUTES_def
        Object_keys_def fetch_def failed_entry_def addReading_def Math_round_div60_def results_def)
  have r: "readings s = []"
    by (simp add: s_def isConfigured_def start_refresh_def init_def)
  from successful_refresh_stores_valid_results[OF h1 h2, of "Some ''key''" "\<lambda>i. t"] h1
  show ?thesis
    unfolding Let_def t_def[symmetric] fetch_def[symmetric] s_def[symmetric]
    by (simp add: r) (simp add: results_def t_def)
qed

section \<open>Refreshes that bypass the marker\<close>

text \<open>
  Claim C2 says that every trigger of a refresh goes through the marker
  \<^verbatim>\<open>refreshPromise\<close>, so that no second batch starts while one is in flight. Only
  \<^verbatim>\<open>getCurrentTraffic\<close> reads and sets the marker; the call at start-up, the interval
  callback and \<^verbatim>\<open>POST /api/refresh\<close> call \<^verbatim>\<open>refreshTrafficData()\<close> directly. On a
  configured server, a read request that arrives while the start-up refresh is in flight
  starts a second batch, and so does a forced refresh that arrives while a refresh
  started by a read request is in flight: in both runs two batches are in flight at once.
\<close>

theorem direct_refresh_ignores_marker:
  "(let API_KEY = Some ''key'';
        t = \<lparr>getTime = 1000, getFullYear = 2026, getMonth = 10, getDate = 2, getHours = 8,
              getMinutes = 0, getSeconds = 1\<rparr>;
        s1 = run_events API_KEY init [Scheduled, GET_api_crossings 1 (\<lambda>i. (0, 0)) (\<lambda>i. t) 990];
        s2 = run_events API_KEY init [GET_api_crossings 1 (\<lambda>i. (0, 0)) (\<lambda>i. t) 990, POST_api_refresh 2]
    in batches s1 = 2 \<and>
       pending s1 = [\<lparr>rid = 0, marked = False, waiters = [Scheduler]\<rparr>,
                     \<lparr>rid = 1, marked = True, waiters = [Reader 1]\<rparr>] \<and>
       batches s2 = 2 \<and>
       pending s2 = [\<lparr>rid = 0, marked = True, waiters = [Reader 1]\<rparr>,
                     \<lparr>rid = 1, marked = False, waiters = [Admin 2]\<rparr>])"
  by (simp add: run_events_def isConfigured_def init_def start_refresh_def getCurrentTraffic_def
      cached_def)

section \<open>The server without an API key\<close>

lemma mock_step:
  assumes "\<not> isConfigured API_KEY"
    and "e = Scheduled \<or> (\<exists>n random clk now. e = GET_api_crossings n random clk now)"
  shows "step API_KEY s e =
           s\<lparr>responses := responses s @
               (case e of
                  GET_api_crossings n random clk now \<Rightarrow> [(n, Crossings (mock_crossings random clk))]
                | _ \<Rightarrow> [])\<rparr>"
  using assms by auto

text \<open>
  Claim C10. On a server without an API key, any sequence of requests for the current
  crossings and of scheduler events leaves the table of readings and the traffic cache as
  they were, starts no refresh and calls \<^verbatim>\<open>getCurrentTraffic\<close> for nobody; all it adds
  are the answers, one per request, holding the synthesized entries. Hence the heatmap of
  every crossing is unchanged: no placeholder value reaches the table.
\<close>

theorem mock_mode_leaves_store_and_cache:
  assumes "\<not> isConfigured API_KEY"
    and "\<forall>e \<in> set evs. e = Scheduled \<or> (\<exists>n random clk now. e = GET_api_crossings n random clk now)"
  shows "let s' = run_events API_KEY s evs
         in readings s' = readings s \<and>
            trafficCache s' = trafficCache s \<and>
            pending s' = pending s \<and>
            batches s' = batches s \<and>
            returned s' = returned s \<and>
            responses s' = responses s @
              concat (map (\<lambda>e. case e of
                                  GET_api_crossings n random clk now \<Rightarrow>
                                    [(n, Crossings (mock_crossings random clk))]
                                | _ \<Rightarrow> []) evs) \<and>
            (\<forall>c. getHistoricalData c (readings s') = getHistoricalData c (readings s))"
proof -
  have "run_events API_KEY s evs =
          s\<lparr>responses := responses s @
              concat (map (\<lambda>e. case e of
                                  GET_api_crossings n random clk now \<Rightarrow>
                                    [(n, Crossings (mock_crossings random clk))]
                                | _ \<Rightarrow> []) evs)\<rparr>"
    using assms(2)
  proof (induction evs arbitrary: s)
    case Nil
    then show ?case by (simp add: run_events_def)
  next
    case (Cons e evs)
    from Cons.prems have e: "e = Scheduled \<or> (\<exists>n random clk now. e = GET_api_crossings n random clk now)"
      and rest: "\<forall>e \<in> set evs. e = Scheduled \<or> (\<exists>n random clk now. e = GET_api_crossings n random clk now)"
      by simp_all
    have "run_events API_KEY s (e # evs) = run_events API_KEY (step API_KEY s e) evs"
      by (simp add: run_events_def)
    also note Cons.IH[OF rest]
    finally show ?case
      unfolding mock_step[OF assms(1) e] by simp
  qed
  then show ?thesis by (simp add: Let_def)
qed

theorem mock_mode_leaves_store_and_cache_witness:
  "(let t = \<lparr>getTime = 1000, getFullYear = 2026, getMonth = 10, getDate = 2, getHours = 8,
              getMinutes = 0, getSeconds = 1\<rparr>;
        row = \<lparr>crossing_id = ''gwb-out'', wait_time = 12,
               recorded_at = \<lparr>ts_year = 2026, ts_month = 11, ts_day = 2, ts_hour = 8,
                               ts_minute = 0, ts_second = 1\<rparr>\<rparr>;
        s = init\<lparr>readings := [row]\<rparr>;
        s' = run_events None s
               [GET_api_crossings 1 (\<lambda>i. (1, - 1)) (\<lambda>i. t) 990, Scheduled,
                GET_api_crossings 2 (\<lambda>i. (0, 0)) (\<lambda>i. t) 995]
    in \<not> isConfigured None \<and>
       readings s' = [row] \<and>
       trafficCache s' = trafficCache init \<and>
       pending s' = [] \<and> batches s' = 0 \<and> returned s' = [] \<and>
       map fst (responses s') = [1, 2] \<and>
       getHistoricalData ''gwb-out'' (readings s') = getHistoricalData ''gwb-out'' [row])"
proof -
  define t where "t = \<lparr>getTime = 1000, getFullYear = 2026, getMonth = 10, getDate = 2, getHours = 8,
              getMinutes = 0, getSeconds = 1\<rparr>"
  define row where "row = \<lparr>crossing_id = ''gwb-out'', wait_time = 12,
               recorded_at = \<lparr>ts_year = 2026, ts_month = 11, ts_day = 2, ts_hour = 8,
                               ts_minute = 0, ts_second = 1\<rparr>\<rparr>"
  define evs where "evs = [GET_api_crossings 1 (\<lambda>i. (1, - 1)) (\<lambda>i. t) 990, Scheduled,
                GET_api_crossings 2 (\<lambda>i. (0, 0)) (\<lambda>i. t) 995]"
  have h: "\<not> isConfigured None"
    "\<forall>e \<in> set evs. e = Scheduled \<or> (\<exists>n random clk now. e = GET_api_crossings n random clk now)"
    by (simp_all add: isConfigured_def evs_def)
  from mock_mode_leaves_store_and_cache[OF h, of "init\<lparr>readings := [row]\<rparr>"] h(1)
  show ?thesis
    unfolding Let_def t_def[symmetric] row_def[symmetric] evs_def[symmetric]
    by (simp add: init_def evs_def)
qed

text \<open>
  The product with 31 in double arithmetic: rounding moves the exact product up by at most
  half a unit of the last place kept, so the product of a double below 1 stays below 31,
  and \<open>unit_double\<close> says that the number is below 1.
\<close>

lemma round_up_half:
  fixes x g :: nat
  shows "2 * ((if g < 2 * (x mod g) \<or> (2 * (x mod g) = g \<and> odd (x div g)) then x div g + 1 else x div g) * g)
           \<le> 2 * x + g"
proof -
  have x: "x div g * g + x mod g = x" by simp
  show ?thesis
  proof (cases "g < 2 * (x mod g) \<or> (2 * (x mod g) = g \<and> odd (x div g))")
    case True
    then have "g \<le> 2 * (x mod g)" by auto
    moreover have "(x div g + 1) * g = x div g * g + g" by (simp add: algebra_simps)
    ultimately have "2 * ((x div g + 1) * g) \<le> 2 * x + g" using x by linarith
    with True show ?thesis by simp
  next
    case False
    have "2 * (x div g * g) \<le> 2 * x + g" using x by linarith
    with False show ?thesis by auto
  qed
qed

lemma round_down_half:
  fixes x g :: nat
  assumes "0 < g"
  shows "2 * x \<le> 2 * ((if g < 2 * (x mod g) \<or> (2 * (x mod g) = g \<and> odd (x div g))
                           then x div g + 1 else x div g) * g) + g"
proof -
  have x: "x div g * g + x mod g = x" by simp
  have r: "x mod g < g" using assms by simp
  show ?thesis
  proof (cases "g < 2 * (x mod g) \<or> (2 * (x mod g) = g \<and> odd (x div g))")
    case True
    have "(x div g + 1) * g = x div g * g + g" by (simp add: algebra_simps)
    then have "2 * x \<le> 2 * ((x div g + 1) * g) + g" using x r by linarith
    with True show ?thesis by simp
  next
    case False
    then have "2 * (x mod g) \<le> g" by auto
    then have "2 * x \<le> 2 * (x div g * g) + g" using x by linarith
    with False show ?thesis by auto
  qed
qed

text \<open>
  \<open>times_31\<close> is the product rounded to nearest: the result is within half a unit of its
  last place of \<open>31 * m\<close>, it is exact when \<open>31 * m\<close> fits into 53 bits, and its
  mantissa has 53 bits otherwise.
\<close>

lemma times_31_nearest:
  assumes "m < 2 ^ 53"
  shows "\<exists>s q. times_31 (m, e) = (q, e + int s) \<and>
          2 * (q * 2 ^ s) \<le> 2 * (31 * m) + 2 ^ s \<and>
          2 * (31 * m) \<le> 2 * (q * 2 ^ s) + 2 ^ s \<and>
          (if 31 * m < 2 ^ 53 then s = 0 else 2 ^ 52 \<le> q \<and> q \<le> 2 ^ 53)"
proof -
  define x where "x = 31 * m"
  define s :: nat where "s = (if x < 2 ^ 53 then 0 else if x < 2 ^ 54 then 1 else if x < 2 ^ 55 then 2
                 else if x < 2 ^ 56 then 3 else if x < 2 ^ 57 then 4 else 5)"
  define q where "q = x div 2 ^ s"
  define q' where "q' = (if 2 ^ s < 2 * (x mod 2 ^ s) \<or> (2 * (x mod 2 ^ s) = 2 ^ s \<and> odd (x div 2 ^ s))
                         then x div 2 ^ s + 1 else x div 2 ^ s)"
  have t: "times_31 (m, e) = (q', e + int s)"
    by (simp only: times_31_def prod.case Let_def x_def[symmetric] s_def[symmetric]
        q'_def[symmetric])
  have up: "2 * (q' * 2 ^ s) \<le> 2 * x + 2 ^ s"
    unfolding q'_def by (rule round_up_half)
  have down: "2 * x \<le> 2 * (q' * 2 ^ s) + 2 ^ s"
    unfolding q'_def by (rule round_down_half) simp
  have x58: "x < 2 ^ 58" using assms by (simp add: x_def)
  have qq: "q \<le> q'" "q' \<le> q + 1" by (simp_all add: q_def q'_def)
  have fits: "2 ^ 52 \<le> q \<and> q < 2 ^ 53" if "\<not> x < 2 ^ 53"
  proof -
    have "2 ^ (52 + s) \<le> x \<and> x < 2 ^ (53 + s)"
      using that x58 by (simp add: s_def)
    then have "2 ^ 52 * 2 ^ s \<le> x" "x < 2 ^ 53 * 2 ^ s"
      by (simp_all only: power_add)
    then show ?thesis
      unfolding q_def by (simp add: less_eq_div_iff_mult_less_eq div_less_iff_less_mult)
  qed
  have "if x < 2 ^ 53 then s = 0 else 2 ^ 52 \<le> q' \<and> q' \<le> 2 ^ 53"
    using fits qq by (auto simp: s_def)
  with t up down show ?thesis
    unfolding x_def by blast
qed

lemma floor_times_31:
  assumes "unit_double d"
  shows "0 \<le> Math_floor (times_31 d)" and "Math_floor (times_31 d) \<le> 30"
proof -
  obtain m e where d: "d = (m, e)" by (cases d)
  define x where "x = 31 * m"
  define s :: nat where "s = (if x < 2 ^ 53 then 0 else if x < 2 ^ 54 then 1 else if x < 2 ^ 55 then 2
                 else if x < 2 ^ 56 then 3 else if x < 2 ^ 57 then 4 else 5)"
  define q' where "q' = (if 2 ^ s < 2 * (x mod 2 ^ s) \<or> (2 * (x mod 2 ^ s) = 2 ^ s \<and> odd (x div 2 ^ s))
                         then x div 2 ^ s + 1 else x div 2 ^ s)"
  have t: "times_31 d = (q', e + int s)"
    by (simp only: times_31_def d prod.case Let_def x_def[symmetric] s_def[symmetric]
        q'_def[symmetric])
  have nonneg: "0 \<le> Math_floor (q', e + int s)"
    by (simp add: Math_floor_def pos_imp_zdiv_nonneg_iff)
  have half: "2 * (q' * 2 ^ s) \<le> 2 * x + 2 ^ s"
    unfolding q'_def by (rule round_up_half)
  have s5: "s \<le> 5" by (simp add: s_def)
  have upper: "Math_floor (q', e + int s) \<le> 30"
  proof (cases "m = 0")
    case True
    then have "x = 0" "s = 0" "q' = 0" by (simp_all add: x_def s_def q'_def)
    then show ?thesis by (simp add: Math_floor_def)
  next
    case False
    with assms obtain k where k: "e = - int k" "0 < k" and mk: "m < 2 ^ k"
      unfolding unit_double_def d
      by (auto simp: nat_eq_iff intro: that[of "nat (- e)"])
    have x_le: "x + 31 \<le> 31 * 2 ^ k"
      using mk by (simp add: x_def)
    have ks: "s \<le> k"
    proof (cases "s = 0")
      case True then show ?thesis by simp
    next
      case False
      then have "2 ^ 53 \<le> x" by (auto simp: s_def split: if_splits)
      then have "(2::nat) ^ 48 \<le> m" by (simp add: x_def)
      with mk have p: "(2::nat) ^ 48 < 2 ^ k" by simp
      have "48 < k"
      proof (rule power_less_imp_less_exp)
        show "(1::nat) < 2" by simp
        show "(2::nat) ^ 48 < 2 ^ k" by (fact p)
      qed
      with s5 show ?thesis by simp
    qed
    define j where "j = k - s"
    have kj: "k = j + s" using ks by (simp add: j_def)
    have pk: "(2::nat) ^ k = 2 ^ j * 2 ^ s" by (simp add: kj power_add)
    have g32: "(2::nat) ^ s \<le> 32"
      using power_increasing[OF s5, of "2::nat"] by simp
    have gpos: "0 < (2::nat) ^ s" by simp
    have "q' * 2 ^ s < 31 * (2 ^ j * 2 ^ s)"
      using half x_le g32 unfolding pk by linarith
    also have "31 * (2 ^ j * 2 ^ s) = (31 * 2 ^ j) * (2::nat) ^ s"
      by (simp only: mult.assoc)
    finally have q: "q' < 31 * 2 ^ j"
      by (simp only: mult_less_cancel2)
    show ?thesis
    proof (cases "j = 0")
      case True
      with q have "q' \<le> 30" by simp
      moreover have "e + int s = 0" using True kj k by simp
      ultimately show ?thesis by (simp add: Math_floor_def)
    next
      case False
      then have neg: "e + int s < 0" and n: "nat (- (e + int s)) = j"
        using kj k by simp_all
      have "q' div 2 ^ j < 31"
        using q by (simp add: less_mult_imp_div_less)
      then have "int (q' div 2 ^ j) \<le> 30" by simp
      then have "int q' div 2 ^ j \<le> 30" by (simp add: zdiv_int)
      with neg n show ?thesis by (simp add: Math_floor_def)
    qed
  qed
  from nonneg upper t show "0 \<le> Math_floor (times_31 d)" "Math_floor (times_31 d) \<le> 30"
    by simp_all
qed


lemma unit_double_value:
  assumes "fst d < 2 ^ 53"
  shows "unit_double d \<longleftrightarrow> double_value d < 1"
proof -
  obtain m e where d: "d = (m, e)" by (cases d)
  show ?thesis
  proof (cases "m = 0")
    case True
    with assms show ?thesis by (simp add: unit_double_def double_value_def d)
  next
    case m: False
    show ?thesis
    proof (cases "e < 0")
      case True
      define k where "k = nat (- e)"
      have e: "real_of_int e = - real k" using True by (simp add: k_def)
      have "2 powr real_of_int e = 1 / 2 ^ k"
        unfolding e by (simp add: powr_minus_divide powr_realpow)
      then have "double_value d = real m / 2 ^ k"
        by (simp add: double_value_def d)
      moreover have "real m / 2 ^ k < 1 \<longleftrightarrow> m < 2 ^ k"
      proof -
        have "real m / 2 ^ k < 1 \<longleftrightarrow> real m < 2 ^ k" by (simp add: divide_less_eq)
        also have "\<dots> \<longleftrightarrow> real m < real ((2::nat) ^ k)" by simp
        also have "\<dots> \<longleftrightarrow> m < 2 ^ k" by (rule of_nat_less_iff)
        finally show ?thesis .
      qed
      ultimately show ?thesis
        using assms m True by (simp add: unit_double_def d k_def)
    next
      case False
      then have "(1::real) \<le> 2 powr real_of_int e"
        by (simp add: ge_one_powr_ge_zero)
      moreover have "1 \<le> real m" using m by simp
      ultimately have "1 * 1 \<le> real m * 2 powr real_of_int e"
        by (intro mult_mono) simp_all
      then have "\<not> double_value d < 1" by (simp add: double_value_def d)
      with m False show ?thesis by (simp add: unit_double_def d)
    qed
  qed
qed

lemma mock_crossings_entries:
  assumes "\<forall>i. unit_double (random i)"
  shows "map entry_crossing (mock_crossings random clk) = CROSSINGS"
    and "\<forall>e \<in> set (mock_crossings random clk).
           \<exists>w. entry_waitTime e = Minutes w \<and> 10 \<le> w \<and> w \<le> 40 \<and>
               (entry_status e, statusClass e) = getStatus w \<and> entry_error e = None"
proof -
  show "map entry_crossing (mock_crossings random clk) = CROSSINGS"
    by (simp add: mock_crossings_def Let_def case_prod_unfold comp_def map_snd_enumerate)
  show "\<forall>e \<in> set (mock_crossings random clk).
           \<exists>w. entry_waitTime e = Minutes w \<and> 10 \<le> w \<and> w \<le> 40 \<and>
               (entry_status e, statusClass e) = getStatus w \<and> entry_error e = None"
  proof
    fix e assume "e \<in> set (mock_crossings random clk)"
    then obtain i c where
      e: "e = (let delay = Math_floor (times_31 (random i));
                waitTime' = 10 + delay;
                (status', statusClass') = getStatus waitTime'
            in \<lparr>entry_crossing = c, entry_waitTime = Minutes waitTime',
                entry_status = status', statusClass = statusClass',
                updatedAt = getTime (clk i), entry_error = None\<rparr>)"
      by (auto simp: mock_crossings_def)
    from assms have "unit_double (random i)" by simp
    from floor_times_31[OF this] show "\<exists>w. entry_waitTime e = Minutes w \<and> 10 \<le> w \<and> w \<le> 40 \<and>
               (entry_status e, statusClass e) = getStatus w \<and> entry_error e = None"
      by (simp add: e Let_def case_prod_unfold)
  qed
qed

text \<open>
  Claim C9, amended. On a server without an API key, a request for the current crossings
  calls neither \<^verbatim>\<open>getCurrentTraffic\<close> nor the fetch path, and a scheduler event does
  nothing. The request is answered with six synthesized entries, one per crossing in the
  order of \<^verbatim>\<open>CROSSINGS\<close>; for random draws that are doubles in \<open>[0, 1)\<close>, multiplied
  by 31 in double arithmetic as the code does, each wait time is an integer between 10
  and 40, with the status \<^verbatim>\<open>getStatus\<close> gives it and no \<^verbatim>\<open>error\<close>. The
  entries have the fields of an entry built from fetched data and nothing else: no
  field tags them as placeholders.
\<close>

theorem unconfigured_crossings_are_synthesized:
  assumes "\<not> isConfigured API_KEY"
    and "\<forall>i. unit_double (random i)"
  shows "let s' = step API_KEY s (GET_api_crossings n random clk now);
             es = mock_crossings random clk
         in batches s' = batches s \<and> pending s' = pending s \<and> returned s' = returned s \<and>
            responses s' = responses s @ [(n, Crossings es)] \<and>
            length es = 6 \<and>
            map entry_crossing es = CROSSINGS \<and>
            (\<forall>e \<in> set es.
               \<exists>w. entry_waitTime e = Minutes w \<and> 10 \<le> w \<and> w \<le> 40 \<and>
                   (entry_status e, statusClass e) = getStatus w \<and> entry_error e = None) \<and>
            step API_KEY s Scheduled = s"
proof -
  have "length (mock_crossings random clk) = 6"
    by (simp add: mock_crossings_def CROSSINGS_def)
  with assms(1) mock_crossings_entries[OF assms(2), of clk] show ?thesis
    by (simp add: Let_def)
qed

theorem unconfigured_crossings_are_synthesized_witness:
  "(let t = \<lparr>getTime = 1000, getFullYear = 2026, getMonth = 10, getDate = 2, getHours = 8,
              getMinutes = 0, getSeconds = 1\<rparr>;
        random = (\<lambda>i. if i = 0 then (0, 0)
                       else if i = 1 then (4503599627370496, - 53)
                       else if i = 2 then (4648877034705028, - 53)
                       else if i = 3 then (4648877034705027, - 53)
                       else (9007199254740991, - 53));
        s' = step None init (GET_api_crossings 1 random (\<lambda>i. t) 990)
    in \<not> isConfigured None \<and> unit_double (random 2) \<and>
       double_value (random 2) * 31 < 16 \<and>
       batches s' = 0 \<and> pending s' = [] \<and> returned s' = [] \<and>
       responses s' = [(1, Crossings (mock_crossings random (\<lambda>i. t)))] \<and>
       map entry_waitTime (mock_crossings random (\<lambda>i. t)) =
         [Minutes 10, Minutes 25, Minutes 26, Minutes 25, Minutes 40, Minutes 40] \<and>
       map entry_status (mock_crossings random (\<lambda>i. t)) =
         [''Light'', ''Moderate'', ''Heavy'', ''Moderate'', ''Heavy'', ''Heavy''] \<and>
       map entry_crossing (mock_crossings random (\<lambda>i. t)) = CROSSINGS)"
proof -
  define t where "t = \<lparr>getTime = 1000, getFullYear = 2026, getMonth = 10, getDate = 2, getHours = 8,
              getMinutes = 0, getSeconds = 1\<rparr>"
  define random :: "nat \<Rightarrow> double" where
    "random = (\<lambda>i. if i = 0 then (0, 0)
                       else if i = 1 then (4503599627370496, - 53)
                       else if i = 2 then (4648877034705028, - 53)
                       else if i = 3 then (4648877034705027, - 53)
                       else (9007199254740991, - 53))"
  have h: "\<not> isConfigured None" "\<forall>i. unit_double (random i)"
    by (simp_all add: isConfigured_def random_def unit_double_def)
  have r2: "random 2 = (4648877034705028, - 53)"
    by (simp add: random_def)
  have below: "double_value (random 2) * 31 < 16"
    unfolding r2 double_value_def by (simp add: powr_minus_divide powr_numeral)
  have fl: "Math_floor (times_31 (0, 0)) = 0"
    "Math_floor (times_31 (4503599627370496, - 53)) = 15"
    "Math_floor (times_31 (4648877034705028, - 53)) = 16"
    "Math_floor (times_31 (4648877034705027, - 53)) = 15"
    "Math_floor (times_31 (9007199254740991, - 53)) = 30"
    by (simp_all add: Math_floor_def times_31_def Let_def)
  have v: "map entry_waitTime (mock_crossings random (\<lambda>i. t)) =
         [Minutes 10, Minutes 25, Minutes 26, Minutes 25, Minutes 40, Minutes 40]"
    "map entry_status (mock_crossings random (\<lambda>i. t)) =
         [''Light'', ''Moderate'', ''Heavy'', ''Moderate'', ''Heavy'', ''Heavy'']"
    by (simp_all add: mock_crossings_def CROSSINGS_def random_def getStatus_def fl)
  from unconfigured_crossings_are_synthesized[OF h, of init 1 "\<lambda>i. t" 990] h v below
  show ?thesis
    unfolding Let_def t_def[symmetric] random_def[symmetric]
    by (simp add: init_def)
qed

text \<open>
  Claim C9 as stated fails in two places. The synthesized entries are not tagged: the
  answer of a server without a key can be, field for field, the answer of a configured
  server from fetched data (here every crossing at 10 minutes). And the fetch path is not
  closed to a server without a key: \<^verbatim>\<open>POST /api/refresh\<close> starts a batch there.
\<close>

theorem placeholder_entries_carry_no_tag:
  "(let t = \<lparr>getTime = 1000, getFullYear = 2026, getMonth = 10, getDate = 2, getHours = 8,
              getMinutes = 0, getSeconds = 1\<rparr>;
        fetch = (\<lambda>c. Inr \<lparr>status = ''OK'',
                           routes = Some [Some [\<lparr>duration_in_traffic = Some (Some 600),
                                                 duration = Some (Some 500), distance = Some (Some 2000)\<rparr>]]\<rparr>);
        refreshed = run_events (Some ''key'') init
                      [Scheduled, Settled 0 fetch (\<lambda>c. t) t (\<lambda>db r. None) (\<lambda>i. t)];
        request = GET_api_crossings 1 (\<lambda>i. (0, 0)) (\<lambda>i. t) 2000
    in responses (step None init request) = responses (step (Some ''key'') refreshed request) \<and>
       batches (step None init (POST_api_refresh 2)) = batches init + 1)"
proof -
  have fl: "Math_floor (times_31 (0, 0)) = 0"
    by (simp add: Math_floor_def times_31_def Let_def)
  show ?thesis
    by (simp add: run_events_def isConfigured_def init_def start_refresh_def settle_def
        refreshTrafficData_def fetchAllTravelTimes_def fetchTravelTime_def plus_value_def
        Math_round_div60_def ROUTES_def Object_keys_def addReading_def getCurrentTraffic_def
        cached_def CACHE_TTL_def notify_def mock_crossings_def traffic_crossings_def
        CROSSINGS_def getStatus_def fl)
qed

section \<open>Readings sent by hand\<close>

lemma known_crossing:
  "find (\<lambda>c. id' c = x) CROSSINGS \<noteq> None \<longleftrightarrow>
     x \<in> {''gwb-into'', ''gwb-out'', ''lincoln-into'', ''lincoln-out'', ''holland-into'', ''holland-out''}"
  by (auto simp: CROSSINGS_def)

lemma accepted_number:
  "Number_isInteger x \<and> \<not> outside x 0 300 \<longleftrightarrow> (\<exists>r. x = Finite r \<and> r \<in> \<int> \<and> 0 \<le> r \<and> r \<le> 300)"
proof (cases x)
  case (Finite r)
  have "r = of_int \<lfloor>r\<rfloor> \<longleftrightarrow> r \<in> \<int>"
    using of_int_floor_cancel[of r] by (auto simp: eq_commute)
  with Finite show ?thesis
    by (auto simp: Number_isInteger_def outside_def)
qed (simp_all add: Number_isInteger_def outside_def)

lemma POST_api_readings_cases:
  "POST_api_readings parse run now b db =
     (case body_crossingId b of
        Some (JString c) \<Rightarrow>
          if c = [] then (Failure 400 ''crossingId is required and must be a string'', db)
          else if find (\<lambda>x. id' x = c) CROSSINGS = None then (Failure 400 ''Invalid crossingId'', db)
          else
            (case body_waitTime b of
               None \<Rightarrow> (Failure 400 ''waitTime is required'', db)
             | Some v \<Rightarrow>
                 if v = JNull then (Failure 400 ''waitTime is required'', db)
                 else if Number_isInteger (Number parse v) \<and> \<not> outside (Number parse v) 0 300 then
                   (case addReading run c
                           (Whole (case Number parse v of Finite r \<Rightarrow> \<lfloor>r\<rfloor> | _ \<Rightarrow> 0)) now db of
                      Inr db' \<Rightarrow> (Success, db')
                    | Inl msg \<Rightarrow> (Failure 500 msg, db))
                 else (Failure 400 ''waitTime must be an integer between 0 and 300 minutes'', db))
      | _ \<Rightarrow> (Failure 400 ''crossingId is required and must be a string'', db))"
  by (simp add: POST_api_readings_def Let_def split: option.splits json.splits)

text \<open>
  What the handler does. \<^verbatim>\<open>POST /api/readings\<close> answers 400 and stores nothing exactly
  when \<^verbatim>\<open>crossingId\<close> is not a string naming one of the six crossings, or
  \<^verbatim>\<open>waitTime\<close> is missing or null, or \<^verbatim>\<open>Number(waitTime)\<close> is not an integer between
  0 and 300 (bounds included). In every other case it hands that integer to
  \<^verbatim>\<open>addReading\<close>: the row is appended and the answer is a success, unless the
  \<^verbatim>\<open>INSERT\<close> itself throws.
\<close>

lemma POST_api_readings_accepts:
  fixes parse run now b db
  defines "valid \<equiv> (\<lambda>c v r.
      body_crossingId b = Some (JString c) \<and>
      c \<in> {''gwb-into'', ''gwb-out'', ''lincoln-into'', ''lincoln-out'', ''holland-into'', ''holland-out''} \<and>
      body_waitTime b = Some v \<and> v \<noteq> JNull \<and>
      Number parse v = Finite r \<and> r \<in> \<int> \<and> 0 \<le> r \<and> r \<le> 300)"
  shows "((\<exists>msg. POST_api_readings parse run now b db = (Failure 400 msg, db)) \<longleftrightarrow>
            \<not> (\<exists>c v r. valid c v r)) \<and>
         (\<forall>c v r. valid c v r \<longrightarrow>
            POST_api_readings parse run now b db =
              (let row = \<lparr>crossing_id = c, wait_time = \<lfloor>r\<rfloor>,
                          recorded_at = \<lparr>ts_year = getFullYear now, ts_month = getMonth now + 1,
                                          ts_day = getDate now, ts_hour = getHours now,
                                          ts_minute = getMinutes now, ts_second = getSeconds now\<rparr>\<rparr>
               in case run db row of
                    None \<Rightarrow> (Success, db @ [row])
                  | Some msg \<Rightarrow> (Failure 500 msg, db)))"
proof -
  have accept: "POST_api_readings parse run now b db =
              (let row = \<lparr>crossing_id = c, wait_time = \<lfloor>r\<rfloor>,
                          recorded_at = \<lparr>ts_year = getFullYear now, ts_month = getMonth now + 1,
                                          ts_day = getDate now, ts_hour = getHours now,
                                          ts_minute = getMinutes now, ts_second = getSeconds now\<rparr>\<rparr>
               in case run db row of
                    None \<Rightarrow> (Success, db @ [row])
                  | Some msg \<Rightarrow> (Failure 500 msg, db))"
    if v: "valid c v r" for c v r
  proof -
    from v have c: "body_crossingId b = Some (JString c)" "c \<noteq> []"
      "find (\<lambda>x. id' x = c) CROSSINGS \<noteq> None"
      and w: "body_waitTime b = Some v" "v \<noteq> JNull" "Number parse v = Finite r"
      and ok: "Number_isInteger (Number parse v) \<and> \<not> outside (Number parse v) 0 300"
      unfolding valid_def accepted_number known_crossing by auto
    show ?thesis
      unfolding POST_api_readings_cases using c w ok
      by (simp add: addReading_def Let_def split: option.splits)
  qed
  have reject: "\<exists>msg. POST_api_readings parse run now b db = (Failure 400 msg, db)"
    if n: "\<not> (\<exists>c v r. valid c v r)"
  proof (cases "body_crossingId b")
    case None
    then show ?thesis unfolding POST_api_readings_cases by simp
  next
    case (Some j)
    show ?thesis
    proof (cases j)
      case (JString c)
      show ?thesis
      proof (cases "c = [] \<or> find (\<lambda>x. id' x = c) CROSSINGS = None")
        case True
        with Some JString show ?thesis unfolding POST_api_readings_cases by auto
      next
        case known: False
        show ?thesis
        proof (cases "body_waitTime b")
          case None
          with Some JString known show ?thesis unfolding POST_api_readings_cases by simp
        next
          case w: (Some v)
          show ?thesis
          proof (cases "v = JNull")
            case True
            with Some JString known w show ?thesis unfolding POST_api_readings_cases by simp
          next
            case False
            have "\<not> (Number_isInteger (Number parse v) \<and> \<not> outside (Number parse v) 0 300)"
            proof
              assume "Number_isInteger (Number parse v) \<and> \<not> outside (Number parse v) 0 300"
              then obtain r where "Number parse v = Finite r" "r \<in> \<int>" "0 \<le> r" "r \<le> 300"
                unfolding accepted_number by blast
              moreover from known have "find (\<lambda>x. id' x = c) CROSSINGS \<noteq> None" by simp
              ultimately have "valid c v r"
                unfolding valid_def using Some JString w False
                by (simp only: known_crossing) simp
              with n show False by blast
            qed
            then have "(Number_isInteger (Number parse v) \<and> \<not> outside (Number parse v) 0 300) = False"
              by blast
            with Some JString known w False show ?thesis
              unfolding POST_api_readings_cases by (simp only: option.case json.case if_False) simp
          qed
        qed
      qed
    qed (use Some in \<open>simp_all add: POST_api_readings_cases\<close>)
  qed
  have "\<not> (\<exists>msg. POST_api_readings parse run now b db = (Failure 400 msg, db))"
    if "valid c v r" for c v r
    unfolding accept[OF that] by (simp add: Let_def split: option.splits)
  with accept reject show ?thesis by blast
qed

text \<open>
  For wait times sent as numbers this is the rule of the claim: 0 and 300 are stored, -1
  and 301 are rejected, and so is an unknown crossing.
\<close>

lemma POST_api_readings_boundaries:
  "(let now = \<lparr>getTime = 1000, getFullYear = 2026, getMonth = 10, getDate = 2, getHours = 8,
                getMinutes = 0, getSeconds = 1\<rparr>;
        stamp = \<lparr>ts_year = 2026, ts_month = 11, ts_day = 2, ts_hour = 8, ts_minute = 0,
                  ts_second = 1\<rparr>;
        post = (\<lambda>c w. POST_api_readings (\<lambda>v. NaN) (\<lambda>db r. None) now
                         \<lparr>body_crossingId = Some (JString c),
                          body_waitTime = Some (JNumber (Finite w))\<rparr> [])
    in post ''gwb-into'' 0 =
         (Success, [\<lparr>crossing_id = ''gwb-into'', wait_time = 0, recorded_at = stamp\<rparr>]) \<and>
       post ''holland-out'' 300 =
         (Success, [\<lparr>crossing_id = ''holland-out'', wait_time = 300, recorded_at = stamp\<rparr>]) \<and>
       (\<exists>msg. post ''gwb-into'' (- 1) = (Failure 400 msg, [])) \<and>
       (\<exists>msg. post ''gwb-into'' 301 = (Failure 400 msg, [])) \<and>
       (\<exists>msg. post ''brooklyn-into'' 12 = (Failure 400 msg, [])))"
proof -
  define now where "now = \<lparr>getTime = 1000, getFullYear = 2026, getMonth = 10, getDate = 2,
                getHours = 8, getMinutes = 0, getSeconds = 1\<rparr>"
  define b where "b = (\<lambda>c w. \<lparr>body_crossingId = Some (JString c),
                          body_waitTime = Some (JNumber (Finite w))\<rparr>)"
  note v = POST_api_readings_accepts[of "\<lambda>v. NaN" "\<lambda>db r. None" now _ "[]"]
  have "POST_api_readings (\<lambda>v. NaN) (\<lambda>db r. None) now (b ''gwb-into'' 0) [] =
          (Success, [\<lparr>crossing_id = ''gwb-into'', wait_time = 0,
                      recorded_at = \<lparr>ts_year = 2026, ts_month = 11, ts_day = 2, ts_hour = 8,
                                      ts_minute = 0, ts_second = 1\<rparr>\<rparr>])"
    using v[of "b ''gwb-into'' 0", THEN conjunct2, rule_format, of "''gwb-into''" "JNumber (Finite 0)" 0]
    by (simp add: b_def Number_def now_def)
  moreover have "POST_api_readings (\<lambda>v. NaN) (\<lambda>db r. None) now (b ''holland-out'' 300) [] =
          (Success, [\<lparr>crossing_id = ''holland-out'', wait_time = 300,
                      recorded_at = \<lparr>ts_year = 2026, ts_month = 11, ts_day = 2, ts_hour = 8,
                                      ts_minute = 0, ts_second = 1\<rparr>\<rparr>])"
    using v[of "b ''holland-out'' 300", THEN conjunct2, rule_format,
        of "''holland-out''" "JNumber (Finite 300)" 300]
    by (simp add: b_def Number_def now_def)
  moreover have "\<exists>msg. POST_api_readings (\<lambda>v. NaN) (\<lambda>db r. None) now (b ''gwb-into'' (- 1)) [] =
          (Failure 400 msg, [])"
    using v[of "b ''gwb-into'' (- 1)", THEN conjunct1]
    by (simp add: b_def Number_def)
  moreover have "\<exists>msg. POST_api_readings (\<lambda>v. NaN) (\<lambda>db r. None) now (b ''gwb-into'' 301) [] =
          (Failure 400 msg, [])"
    using v[of "b ''gwb-into'' 301", THEN conjunct1]
    by (simp add: b_def Number_def)
  moreover have "\<exists>msg. POST_api_readings (\<lambda>v. NaN) (\<lambda>db r. None) now (b ''brooklyn-into'' 12) [] =
          (Failure 400 msg, [])"
    using v[of "b ''brooklyn-into'' 12", THEN conjunct1]
    by (simp add: b_def Number_def)
  ultimately show ?thesis
    unfolding Let_def now_def[symmetric] b_def by blast
qed

text \<open>
  Claim C8 says that a reading sent by hand is rejected exactly when its crossing id is
  not one of the six or its wait time is not an integer between 0 and 300. The handler
  says the same, in its comment and in the message it answers with; but it tests
  \<^verbatim>\<open>Number(waitTime)\<close> and not the wait time itself, and where the test of
  \<^verbatim>\<open>crossingId\<close> asks for a string, no test asks for a number. So a wait time that is
  not a number at all is accepted when its conversion is an integer in range: the JSON
  value \<^verbatim>\<open>true\<close> is answered with a success and stored as a wait time of 1.
\<close>

theorem coerced_wait_time_is_accepted:
  "POST_api_readings (\<lambda>v. NaN) (\<lambda>db r. None)
     \<lparr>getTime = 1000, getFullYear = 2026, getMonth = 10, getDate = 2, getHours = 8,
      getMinutes = 0, getSeconds = 1\<rparr>
     \<lparr>body_crossingId = Some (JString ''gwb-into''), body_waitTime = Some (JBool True)\<rparr> [] =
   (Success,
    [\<lparr>crossing_id = ''gwb-into'', wait_time = 1,
      recorded_at = \<lparr>ts_year = 2026, ts_month = 11, ts_day = 2, ts_hour = 8,
                      ts_minute = 0, ts_second = 1\<rparr>\<rparr>])"
  by (simp add: POST_api_readings_def Number_def Number_isInteger_def outside_def CROSSINGS_def
      addReading_def)

end
